theory Spec2Isabelle
  imports Main "HOL-Library.Sublist" "HOL-Library.Char_ord" "HOL-Library.List_Lexorder"
begin

section \<open>Python built-ins used by the prompt renderer\<close>

text \<open>
  The repository holds two renderers of the same zsh prompt: \<^verbatim>\<open>async_prompt.py\<close>, a server
  that renders for a client's environment, and \<^verbatim>\<open>prompt.py\<close>, the one-shot command line
  program. Definitions without a suffix follow \<^verbatim>\<open>async_prompt.py\<close>; where \<^verbatim>\<open>prompt.py\<close>
  differs, its version carries the suffix \<open>_cli\<close>.

  A Python \<^verbatim>\<open>str\<close> is modelled as a \<^typ>\<open>string\<close>, one \<^typ>\<open>char\<close> per code point, which
  covers the code points below 256. The non-ASCII glyphs of the source's format strings
  are written as their UTF-8 bytes; no function of the source reads their length.
\<close>

abbreviation squote :: char where "squote \<equiv> CHR 0x27"
abbreviation dquote :: char where "dquote \<equiv> CHR 0x22"
abbreviation backslash :: char where "backslash \<equiv> CHR 0x5C"
abbreviation newline :: char where "newline \<equiv> CHR 0x0A"

text \<open>The exceptions that the modelled code can meet.\<close>

datatype exn = CalledProcessError | TimeoutExpired | FileNotFoundError | ValueError
  | KeyError | OtherError string

text \<open>\<^verbatim>\<open>sep.join(xs)\<close>\<close>

fun join :: "string \<Rightarrow> string list \<Rightarrow> string" where
  "join sep [] = []"
| "join sep [x] = x"
| "join sep (x # y # ys) = x @ sep @ join sep (y # ys)"

text \<open>\<^verbatim>\<open>s * n\<close> for a string \<open>s\<close> and an integer \<open>n\<close>: empty when \<open>n \<le> 0\<close>.\<close>

definition str_mul :: "string \<Rightarrow> int \<Rightarrow> string" where
  "str_mul s n = concat (replicate (nat n) s)"

text \<open>\<^verbatim>\<open>x in s\<close> for two strings: \<open>x\<close> occurs in \<open>s\<close> as a substring.\<close>

fun str_in :: "string \<Rightarrow> string \<Rightarrow> bool" where
  "str_in x [] = (x = [])"
| "str_in x (c # cs) = (prefix x (c # cs) \<or> str_in x cs)"

text \<open>
  \<^verbatim>\<open>s.replace(old, new)\<close>: every occurrence of \<open>old\<close>, found from the left without overlap,
  becomes \<open>new\<close>; an empty \<open>old\<close> matches before every character and at the end.
\<close>

function replace :: "string \<Rightarrow> string \<Rightarrow> string \<Rightarrow> string" where
  "replace old new s =
     (if old = [] then new @ concat (map (\<lambda>c. c # new) s)
      else if s = [] then []
      else if prefix old s then new @ replace old new (drop (length old) s)
      else hd s # replace old new (tl s))"
  by pat_completeness auto
termination
  by (relation "measure (\<lambda>(old, new, s). length s)") auto

declare replace.simps [simp del]

text \<open>\<^verbatim>\<open>s[k:]\<close> for an integer \<open>k\<close>: a negative \<open>k\<close> counts from the end.\<close>

definition slice_from :: "int \<Rightarrow> string \<Rightarrow> string" where
  "slice_from k s =
     (if k < 0 then drop (nat (max (int (length s) + k) 0)) s else drop (nat k) s)"

text \<open>\<^verbatim>\<open>str(n)\<close> for an integer, in decimal.\<close>

definition digit_char :: "nat \<Rightarrow> char" where
  "digit_char d = ''0123456789'' ! d"

function str_nat :: "nat \<Rightarrow> string" where
  "str_nat n = (if n < 10 then [digit_char n] else str_nat (n div 10) @ [digit_char (n mod 10)])"
  by pat_completeness auto
termination
  by (relation "measure id") auto

declare str_nat.simps [simp del]

definition str_int :: "int \<Rightarrow> string" where
  "str_int i = (if i < 0 then CHR ''-'' # str_nat (nat (- i)) else str_nat (nat i))"

text \<open>
  A format string with one unnamed field \<^verbatim>\<open>{}\<close> is the text before the field and the
  text after it; \<^verbatim>\<open>format_str.format(x)\<close> puts \<open>x\<close> between them.
\<close>

type_synonym format_str = "string \<times> string"

definition format1 :: "format_str \<Rightarrow> string \<Rightarrow> string" where
  "format1 f x = fst f @ x @ snd f"

text \<open>
  \<^verbatim>\<open>shlex.quote\<close>: the empty string becomes two quotes, a string of safe characters
  (\<^verbatim>\<open>[\w@%+=:,./-]\<close>, ASCII) is returned as it is, any other is wrapped in single quotes
  with each single quote of its own written \<^verbatim>\<open>'"'"'\<close>.
\<close>

definition safe_char :: "char \<Rightarrow> bool" where
  "safe_char c = (c \<in> set (''abcdefghijklmnopqrstuvwxyzABCDEFGHIJKLMNOPQRSTUVWXYZ''
     @ ''0123456789_@%+=:,./-''))"

definition quote :: "string \<Rightarrow> string" where
  "quote s =
     (if s = [] then [squote, squote]
      else if list_all safe_char s then s
      else [squote] @ replace [squote] [squote, dquote, squote, dquote, squote] s @ [squote])"

section \<open>Colors\<close>

datatype Colors = default_color | red | green | yellow | blue | purple | teal
  | special1 | special2 | special3 | special4 | gray

fun color_value :: "Colors \<Rightarrow> nat" where
  "color_value default_color = 0"
| "color_value red = 1"
| "color_value green = 2"
| "color_value yellow = 3"
| "color_value blue = 4"
| "color_value purple = 5"
| "color_value teal = 6"
| "color_value special1 = 16"
| "color_value special2 = 17"
| "color_value special3 = 18"
| "color_value special4 = 19"
| "color_value gray = 21"

definition NO_COLOR :: bool where
  "NO_COLOR = False"

text \<open>
  \<^verbatim>\<open>Colors.colorize\<close>. The source's strings are raw: \<^verbatim>\<open>\e\<close> is a backslash and an \<open>e\<close>,
  which \<^verbatim>\<open>echo\<close> turns into the escape character later.
\<close>

definition colorize :: "Colors \<Rightarrow> string \<Rightarrow> bool \<Rightarrow> string" where
  "colorize c s zero_width =
     (if NO_COLOR then s
      else if zero_width then
        ''%{'' @ [backslash] @ ''e[38;5;'' @ str_nat (color_value c) @ ''m%}'' @ s
          @ ''%{'' @ [backslash] @ ''e[0;m%}''
      else [backslash] @ ''e[38;5;'' @ str_nat (color_value c) @ ''m'' @ s
          @ [backslash] @ ''e[0;m'')"

section \<open>Fragments and containers\<close>

text \<open>
  \<^verbatim>\<open>PromptPart\<close> and its subclasses. Only \<^verbatim>\<open>LastCommandFragment\<close> overrides a method
  (\<^verbatim>\<open>__len__\<close>), so an object is its three fields, the class that \<^verbatim>\<open>__len__\<close> dispatches
  on, and the \<^verbatim>\<open>last_cmd\<close> that this method reads (\<open>None\<close> is Python's \<^verbatim>\<open>None\<close>).
\<close>

datatype part_class = PromptPart_class | LastCommandFragment_class

record PromptPart =
  content :: string
  color :: Colors
  zero_width :: bool
  part_class :: part_class
  last_cmd :: "string option"

definition PromptPart_init :: PromptPart where
  "PromptPart_init =
     \<lparr>content = [], color = default_color, zero_width = True,
      part_class = PromptPart_class, last_cmd = None\<rparr>"

text \<open>\<^verbatim>\<open>__str__\<close>\<close>

definition str_part :: "PromptPart \<Rightarrow> string" where
  "str_part p =
     (if color_value (color p) = 0 then content p
      else colorize (color p) (content p) (zero_width p))"

text \<open>Python's truth value of a string that may be \<^verbatim>\<open>None\<close>.\<close>

fun truthy :: "string option \<Rightarrow> bool" where
  "truthy None = False"
| "truthy (Some s) = (s \<noteq> [])"

text \<open>\<^verbatim>\<open>__len__\<close>, with the override of \<^verbatim>\<open>LastCommandFragment\<close>.\<close>

definition len_part :: "PromptPart \<Rightarrow> nat" where
  "len_part p =
     (case part_class p of
        PromptPart_class \<Rightarrow> length (content p)
      | LastCommandFragment_class \<Rightarrow>
          (if truthy (last_cmd p) then length (the (last_cmd p)) + 2 else 0))"

record PromptPartContainer =
  separator :: string
  parts :: "PromptPart list"

definition len_container :: "PromptPartContainer \<Rightarrow> nat" where
  "len_container c = sum_list (map len_part (parts c))"

definition str_container :: "PromptPartContainer \<Rightarrow> string" where
  "str_container c =
     join (separator c) (map str_part (filter (\<lambda>p. content p \<noteq> []) (parts c)))"

definition uncolorized_str :: "PromptPartContainer \<Rightarrow> string" where
  "uncolorized_str c =
     join (separator c) (map content (filter (\<lambda>p. content p \<noteq> []) (parts c)))"

definition RULE_CHAR :: string where
  "RULE_CHAR = ''~''"

subsection \<open>Fragment constructors\<close>

text \<open>
  \<^verbatim>\<open>LastCommandFragment\<close> of \<^verbatim>\<open>async_prompt.py\<close>: each backslash of the quoted command is
  doubled.
\<close>

definition LastCommandFragment :: "string option \<Rightarrow> Colors \<Rightarrow> format_str \<Rightarrow> PromptPart" where
  "LastCommandFragment cmd c format_str =
     PromptPart_init
       \<lparr>color := c, part_class := LastCommandFragment_class, last_cmd := cmd,
        content :=
          (if truthy cmd
           then format1 format_str (replace [backslash] [backslash, backslash] (quote (the cmd)))
           else [])\<rparr>"

text \<open>
  \<^verbatim>\<open>LastCommandFragment\<close> of \<^verbatim>\<open>prompt.py\<close>: the command is the global \<^verbatim>\<open>LAST_CMD\<close>, which
  \<^verbatim>\<open>__len__\<close> reads as well, and each backslash becomes four.
\<close>

definition LastCommandFragment_cli :: "string \<Rightarrow> Colors \<Rightarrow> format_str \<Rightarrow> PromptPart" where
  "LastCommandFragment_cli LAST_CMD c format_str =
     PromptPart_init
       \<lparr>color := c, part_class := LastCommandFragment_class, last_cmd := Some LAST_CMD,
        content :=
          (if LAST_CMD \<noteq> []
           then format1 format_str
             (replace [backslash] [backslash, backslash, backslash, backslash] (quote LAST_CMD))
           else [])\<rparr>"

definition last_cmd_format :: format_str where
  "last_cmd_format = ([CHR ''['', squote], [squote, CHR '']''])"

definition ColoredTextFragment :: "string \<Rightarrow> Colors \<Rightarrow> PromptPart" where
  "ColoredTextFragment s c = PromptPart_init\<lparr>color := c, content := s\<rparr>"

text \<open>
  \<^verbatim>\<open>PWDFragment._get_shortened_pwd\<close>, the same in both programs: \<open>HOME\<close> is the global of
  that name and \<open>pwd\<close> the working directory of the environment.
\<close>

definition get_shortened_pwd :: "string \<Rightarrow> string \<Rightarrow> int \<Rightarrow> string" where
  "get_shortened_pwd HOME pwd max_len =
     (let pwd' = replace HOME ''~'' pwd
      in if int (length pwd') > max_len then ''...'' @ slice_from (- (max_len - 3)) pwd'
         else pwd')"

definition PWDFragment :: "string \<Rightarrow> string \<Rightarrow> Colors \<Rightarrow> int \<Rightarrow> format_str \<Rightarrow> PromptPart" where
  "PWDFragment HOME pwd c max_len format_str =
     PromptPart_init
       \<lparr>color := c, content := format1 format_str (get_shortened_pwd HOME pwd max_len)\<rparr>"

definition paren_format :: format_str where
  "paren_format = (''('', '')'')"

section \<open>The horizontal rule\<close>

text \<open>The loop that switches every part of a container to visible-width colouring.\<close>

definition disable_zero_width :: "PromptPartContainer \<Rightarrow> PromptPartContainer" where
  "disable_zero_width c = c\<lparr>parts := map (\<lambda>p. p\<lparr>zero_width := False\<rparr>) (parts c)\<rparr>"

text \<open>
  \<^verbatim>\<open>embed_in_horizontal_rule\<close> of \<^verbatim>\<open>async_prompt.py\<close>. \<open>terminal_width\<close> is the integer that
  \<^verbatim>\<open>int(terminal_width_str)\<close> gave. The function assigns to the parts of its arguments, so
  it returns the three containers as it leaves them beside the line.
\<close>

definition embed_in_horizontal_rule ::
  "int \<Rightarrow> PromptPartContainer \<Rightarrow> PromptPartContainer \<Rightarrow> PromptPartContainer \<Rightarrow> string
     \<Rightarrow> string \<times> PromptPartContainer \<times> PromptPartContainer \<times> PromptPartContainer" where
  "embed_in_horizontal_rule terminal_width left_container center_container right_container
      rule_char =
     (let left_container = disable_zero_width left_container;
          center_container = disable_zero_width center_container;
          right_container = disable_zero_width right_container;
          center_str = str_container center_container;
          length_of_middle_container =
            terminal_width - int (len_container left_container)
              - int (len_container right_container);
          needed_rule_chars = length_of_middle_container - int (len_container center_container);
          center_str =
            (if needed_rule_chars > 0 then
               (let left_right_fill_length =
                      (length_of_middle_container - int (len_container center_container)) div 2
                in str_mul rule_char (left_right_fill_length + needed_rule_chars mod 2)
                     @ center_str @ str_mul rule_char left_right_fill_length)
             else center_str)
      in (str_container left_container @ center_str @ str_container right_container,
          left_container, center_container, right_container))"

text \<open>
  \<^verbatim>\<open>"{0:{fill}^{cols}}".format(s, fill=fill, cols=cols)\<close>, as \<^verbatim>\<open>str.__format__\<close> centers:
  the text is padded to \<open>cols\<close> characters, the left padding is half of the padding rounded
  down and the right padding is the rest. A negative \<open>cols\<close> puts a sign into the format
  specifier and a \<open>fill\<close> of two or more characters makes it unreadable: both raise
  \<^verbatim>\<open>ValueError\<close>. An empty \<open>fill\<close> pads with spaces.
\<close>

definition format_center :: "string \<Rightarrow> string \<Rightarrow> int \<Rightarrow> exn + string" where
  "format_center s fill cols =
     (if length fill > 1 \<or> cols < 0 then Inl ValueError
      else
        (let fill_char = (if fill = [] then CHR '' '' else hd fill);
             n_total = max (length s) (nat cols);
             n_lpadding = (n_total - length s) div 2;
             n_rpadding = n_total - length s - n_lpadding
         in Inr (replicate n_lpadding fill_char @ s @ replicate n_rpadding fill_char)))"

text \<open>
  \<^verbatim>\<open>embed_in_horizontal_rule\<close> of \<^verbatim>\<open>prompt.py\<close>. \<open>terminal_width\<close> is the integer read from
  \<^verbatim>\<open>tput cols\<close>. The uncolored center is centered by \<^verbatim>\<open>str.format\<close> and then replaced by
  the colored center.
\<close>

definition embed_in_horizontal_rule_cli ::
  "int \<Rightarrow> PromptPartContainer \<Rightarrow> PromptPartContainer \<Rightarrow> PromptPartContainer \<Rightarrow> string
     \<Rightarrow> (exn + string) \<times> PromptPartContainer \<times> PromptPartContainer \<times> PromptPartContainer" where
  "embed_in_horizontal_rule_cli terminal_width left_container center_container right_container
      rule_char =
     (let left_container = disable_zero_width left_container;
          center_container = disable_zero_width center_container;
          right_container = disable_zero_width right_container
      in ((case format_center (uncolorized_str center_container) rule_char
                  (terminal_width - int (len_container left_container)
                     - int (len_container right_container)) of
             Inl e \<Rightarrow> Inl e
           | Inr center_str \<Rightarrow>
               Inr (str_container left_container
                    @ replace (uncolorized_str center_container)
                        (str_container center_container) center_str
                    @ str_container right_container)),
          left_container, center_container, right_container))"

subsection \<open>Notions used to state the properties of the rule\<close>




text \<open>
  \<open>c'\<close> is \<open>c\<close> with nothing changed but the \<open>zero_width\<close> flags, which are all off.
\<close>

definition only_zero_width_off :: "PromptPartContainer \<Rightarrow> PromptPartContainer \<Rightarrow> bool" where
  "only_zero_width_off c c' =
     (separator c' = separator c
      \<and> map content (parts c') = map content (parts c)
      \<and> map color (parts c') = map color (parts c)
      \<and> map part_class (parts c') = map part_class (parts c)
      \<and> map last_cmd (parts c') = map last_cmd (parts c)
      \<and> map zero_width (parts c') = replicate (length (parts c)) False)"

section \<open>Regular expressions\<close>

text \<open>
  The patterns of the source use literal characters, the classes \<^verbatim>\<open>\s\<close>, \<^verbatim>\<open>.\<close> and \<^verbatim>\<open>[?]\<close>,
  the quantifiers \<^verbatim>\<open>?\<close> and \<^verbatim>\<open>*\<close> on one character, the anchors \<^verbatim>\<open>^\<close> and \<^verbatim>\<open>$\<close>, and one
  named group. A pattern is the list of its items; \<open>Open\<close> and \<open>Close\<close> mark the group.
\<close>

datatype atom = Ch char | Space | Dot | OneOf string

datatype item = One atom | Opt atom | Star atom | Bol | Eol | Open | Close

type_synonym regex = "item list"

text \<open>The characters below 256 that \<^verbatim>\<open>\s\<close> matches in a \<^verbatim>\<open>str\<close> pattern.\<close>

definition isspace :: "char \<Rightarrow> bool" where
  "isspace c = (c \<in> set [CHR 0x09, CHR 0x0A, CHR 0x0B, CHR 0x0C, CHR 0x0D, CHR 0x1C, CHR 0x1D,
     CHR 0x1E, CHR 0x1F, CHR 0x20, CHR 0x85, CHR 0xA0])"

fun atom_ok :: "atom \<Rightarrow> char \<Rightarrow> bool" where
  "atom_ok (Ch a) c = (c = a)"
| "atom_ok Space c = isspace c"
| "atom_ok Dot c = (c \<noteq> newline)"
| "atom_ok (OneOf cs) c = (c \<in> set cs)"

text \<open>
  \<open>rmatch ml re prev s rec g\<close> matches the pattern \<open>re\<close> at the start of \<open>s\<close> as the
  backtracking matcher of \<^verbatim>\<open>re\<close> does: a quantifier takes as much as it can first and gives
  back when the rest of the pattern fails. \<open>ml\<close> is the flag \<^verbatim>\<open>MULTILINE\<close>, \<open>prev\<close> the
  character before \<open>s\<close> in the searched text (\<open>None\<close> at its start), \<open>rec\<close> says that the
  group is open and \<open>g\<close> is the text of the group so far. The result is the text of the
  group (empty for a pattern without one), or \<open>None\<close> when the pattern does not match here.
\<close>

fun rmatch :: "bool \<Rightarrow> regex \<Rightarrow> char option \<Rightarrow> string \<Rightarrow> bool \<Rightarrow> string \<Rightarrow> string option" where
  "rmatch ml [] prev s rec g = Some g"
| "rmatch ml (One a # re) prev [] rec g = None"
| "rmatch ml (One a # re) prev (c # cs) rec g =
     (if atom_ok a c then rmatch ml re (Some c) cs rec (if rec then g @ [c] else g) else None)"
| "rmatch ml (Opt a # re) prev [] rec g = rmatch ml re prev [] rec g"
| "rmatch ml (Opt a # re) prev (c # cs) rec g =
     (if atom_ok a c then
        (case rmatch ml re (Some c) cs rec (if rec then g @ [c] else g) of
           Some r \<Rightarrow> Some r
         | None \<Rightarrow> rmatch ml re prev (c # cs) rec g)
      else rmatch ml re prev (c # cs) rec g)"
| "rmatch ml (Star a # re) prev [] rec g = rmatch ml re prev [] rec g"
| "rmatch ml (Star a # re) prev (c # cs) rec g =
     (if atom_ok a c then
        (case rmatch ml (Star a # re) (Some c) cs rec (if rec then g @ [c] else g) of
           Some r \<Rightarrow> Some r
         | None \<Rightarrow> rmatch ml re prev (c # cs) rec g)
      else rmatch ml re prev (c # cs) rec g)"
| "rmatch ml (Bol # re) prev s rec g =
     (if prev = None \<or> (ml \<and> prev = Some newline) then rmatch ml re prev s rec g else None)"
| "rmatch ml (Eol # re) prev s rec g =
     (if s = [] \<or> (if ml then hd s = newline else s = [newline])
      then rmatch ml re prev s rec g else None)"
| "rmatch ml (Open # re) prev s rec g = rmatch ml re prev s True []"
| "rmatch ml (Close # re) prev s rec g = rmatch ml re prev s False g"

text \<open>\<^verbatim>\<open>re.search\<close>: the match at the leftmost position where the pattern matches.\<close>

fun search_at :: "bool \<Rightarrow> regex \<Rightarrow> char option \<Rightarrow> string \<Rightarrow> string option" where
  "search_at ml re prev [] = rmatch ml re prev [] False []"
| "search_at ml re prev (c # cs) =
     (case rmatch ml re prev (c # cs) False [] of
        Some g \<Rightarrow> Some g
      | None \<Rightarrow> search_at ml re (Some c) cs)"

definition search :: "regex \<Rightarrow> string \<Rightarrow> bool \<Rightarrow> string option" where
  "search re s ml = search_at ml re None s"

text \<open>A run of literal characters, and the repetition \<^verbatim>\<open>{n}\<close> of one character.\<close>

definition lit :: "string \<Rightarrow> regex" where
  "lit s = map (\<lambda>c. One (Ch c)) s"

definition rep :: "nat \<Rightarrow> atom \<Rightarrow> regex" where
  "rep n a = replicate n (One a)"

section \<open>The git fragment\<close>

text \<open>
  \<^verbatim>\<open>\* (?P<branch>.*)\<close> and \<^verbatim>\<open>\* \(HEAD detached at (?P<name>.*)\)\<close>
\<close>

definition GIT_REGULAR_BRANCH_REGEX :: regex where
  "GIT_REGULAR_BRANCH_REGEX = lit ''* '' @ [Open, Star Dot, Close]"

definition GIT_COMMIT_OR_TAG_REGEX :: regex where
  "GIT_COMMIT_OR_TAG_REGEX =
     lit ''* (HEAD detached at '' @ [Open, Star Dot, Close] @ lit '')''"

text \<open>
  \<^verbatim>\<open>mod_indicator_re\<close>, in the order of the dictionary: \<^verbatim>\<open>^\s?A  .*$\<close>, \<^verbatim>\<open>^\s?M .*$\<close>,
  \<^verbatim>\<open>^\s?D .*$\<close> and \<^verbatim>\<open>^[?]{2} .*$\<close>.
\<close>

definition mod_indicator_re :: "(string \<times> regex) list" where
  "mod_indicator_re =
     [(''added'', [Bol, Opt Space] @ lit ''A  '' @ [Star Dot, Eol]),
      (''modified'', [Bol, Opt Space] @ lit ''M '' @ [Star Dot, Eol]),
      (''deleted'', [Bol, Opt Space] @ lit ''D '' @ [Star Dot, Eol]),
      (''unknown'', [Bol] @ rep 2 (OneOf ''?'') @ lit '' '' @ [Star Dot, Eol])]"

text \<open>The default of the parameter \<^verbatim>\<open>indicators\<close>.\<close>

definition indicators_default :: "string \<rightharpoonup> string" where
  "indicators_default =
     map_of [(''added'', ''+''), (''modified'', ''!''), (''deleted'', ''-''), (''unknown'', ''?'')]"

text \<open>
  What the three git commands of one construction give: for each, the standard output
  of \<^verbatim>\<open>run\<close>, or the exception that \<^verbatim>\<open>run\<close> raised (\<^verbatim>\<open>CalledProcessError\<close> for a non-zero
  exit status, \<^verbatim>\<open>TimeoutExpired\<close> after two seconds, \<^verbatim>\<open>FileNotFoundError\<close> without a git
  binary). The directory that the server passes to git decides these outputs and is not
  read otherwise.
\<close>

record git_runs =
  git_status :: "exn + string"
  git_branch :: "exn + string"
  git_tag :: "exn + string"

text \<open>\<^verbatim>\<open>_git_mod_info\<close>: the names of the patterns found in the status, in dictionary order.\<close>

definition git_mod_info :: "git_runs \<Rightarrow> exn + string list" where
  "git_mod_info g =
     (case git_status g of
        Inl e \<Rightarrow> Inl e
      | Inr status_str \<Rightarrow>
          Inr (map fst (filter (\<lambda>(m, re). search re status_str True \<noteq> None) mod_indicator_re)))"

definition is_tag :: "git_runs \<Rightarrow> string \<Rightarrow> exn + bool" where
  "is_tag g tag_str =
     (case git_tag g of
        Inl e \<Rightarrow> Inl e
      | Inr out \<Rightarrow> Inr (str_in tag_str out))"

text \<open>\<^verbatim>\<open>_head_info\<close>, which \<^verbatim>\<open>branch_info\<close> returns.\<close>

definition head_info :: "git_runs \<Rightarrow> exn + string" where
  "head_info g =
     (case git_branch g of
        Inl e \<Rightarrow> Inl e
      | Inr git_info_str \<Rightarrow>
          (case search GIT_COMMIT_OR_TAG_REGEX git_info_str False of
             Some head_name \<Rightarrow>
               (case is_tag g head_name of
                  Inl e \<Rightarrow> Inl e
                | Inr t \<Rightarrow> Inr ((if t then ''(T)'' else ''(D)'') @ '' '' @ head_name))
           | None \<Rightarrow>
               (case search GIT_REGULAR_BRANCH_REGEX git_info_str False of
                  Some branch \<Rightarrow> Inr (''(B) '' @ branch)
                | None \<Rightarrow> Inr ''(B) master'')))"

text \<open>\<^verbatim>\<open>indicators[mod]\<close> for each name, in order; a missing key raises \<^verbatim>\<open>KeyError\<close>.\<close>

fun lookup_all :: "(string \<rightharpoonup> string) \<Rightarrow> string list \<Rightarrow> exn + string list" where
  "lookup_all d [] = Inr []"
| "lookup_all d (k # ks) =
     (case d k of
        None \<Rightarrow> Inl KeyError
      | Some v \<Rightarrow> (case lookup_all d ks of Inl e \<Rightarrow> Inl e | Inr vs \<Rightarrow> Inr (v # vs)))"

text \<open>
  The first statements of the \<^verbatim>\<open>try\<close> block of \<^verbatim>\<open>GitInfoFragment.__init__\<close>: the sorted
  glyphs, joined, between bars unless there is none.
\<close>

definition mod_str :: "git_runs \<Rightarrow> (string \<rightharpoonup> string) \<Rightarrow> exn + string" where
  "mod_str g indicators =
     (case git_mod_info g of
        Inl e \<Rightarrow> Inl e
      | Inr mods \<Rightarrow>
          (case lookup_all indicators mods of
             Inl e \<Rightarrow> Inl e
           | Inr glyphs \<Rightarrow>
               (let mod_symbols = concat (sort glyphs)
                in Inr (if mod_symbols = [] then [] else ''|'' @ mod_symbols @ ''|''))))"

text \<open>
  A format string with the two named fields \<^verbatim>\<open>{head}\<close> and \<^verbatim>\<open>{modifier}\<close>, in this order,
  is the text before, between and after them.
\<close>

type_synonym format_str2 = "string \<times> string \<times> string"

definition git_format :: format_str2 where
  "git_format = (''['', [], '']'')"

text \<open>
  \<^verbatim>\<open>GitInfoFragment.__init__\<close>: the \<^verbatim>\<open>try\<close> block computes the modifier first and the head
  second; \<^verbatim>\<open>CalledProcessError\<close> and \<^verbatim>\<open>TimeoutExpired\<close> are caught and leave the empty part,
  any other exception leaves the constructor.
\<close>

definition GitInfoFragment ::
  "git_runs \<Rightarrow> format_str2 \<Rightarrow> Colors \<Rightarrow> (string \<rightharpoonup> string) \<Rightarrow> exn + PromptPart" where
  "GitInfoFragment g format_str c indicators =
     (case (case mod_str g indicators of
              Inl e \<Rightarrow> Inl e
            | Inr m \<Rightarrow> (case head_info g of Inl e \<Rightarrow> Inl e | Inr h \<Rightarrow> Inr (h, m))) of
        Inl CalledProcessError \<Rightarrow> Inr PromptPart_init
      | Inl TimeoutExpired \<Rightarrow> Inr PromptPart_init
      | Inl e \<Rightarrow> Inl e
      | Inr (h, m) \<Rightarrow>
          Inr (PromptPart_init
                 \<lparr>content := fst format_str @ h @ fst (snd format_str) @ m @ snd (snd format_str),
                  color := c\<rparr>))"

subsection \<open>Notions used to state the properties of the git fragment\<close>

text \<open>\<^verbatim>\<open>s.split("\n")\<close>: the lines of a text.\<close>

fun split_lines :: "string \<Rightarrow> string list" where
  "split_lines [] = [[]]"
| "split_lines (c # cs) =
     (if c = newline then [] # split_lines cs
      else (case split_lines cs of [] \<Rightarrow> [[c]] | l # ls \<Rightarrow> (c # l) # ls))"

text \<open>
  A status line belongs to a bucket when it starts with the bucket's status code, after
  at most one whitespace character for the first three buckets.
\<close>

definition starts_with_opt_space :: "string \<Rightarrow> string \<Rightarrow> bool" where
  "starts_with_opt_space code l =
     (prefix code l \<or> (case l of [] \<Rightarrow> False | c # cs \<Rightarrow> isspace c \<and> prefix code cs))"

definition added_line :: "string \<Rightarrow> bool" where
  "added_line l = starts_with_opt_space ''A  '' l"

definition modified_line :: "string \<Rightarrow> bool" where
  "modified_line l = starts_with_opt_space ''M '' l"

definition deleted_line :: "string \<Rightarrow> bool" where
  "deleted_line l = starts_with_opt_space ''D '' l"

definition unknown_line :: "string \<Rightarrow> bool" where
  "unknown_line l = prefix ''?? '' l"

text \<open>The glyphs of the buckets that some line of the status belongs to, in sorted order.\<close>

definition glyph_matched :: "string \<Rightarrow> char \<Rightarrow> bool" where
  "glyph_matched status_str c =
     ((c = CHR ''!'' \<and> list_ex modified_line (split_lines status_str))
      \<or> (c = CHR ''+'' \<and> list_ex added_line (split_lines status_str))
      \<or> (c = CHR ''-'' \<and> list_ex deleted_line (split_lines status_str))
      \<or> (c = CHR ''?'' \<and> list_ex unknown_line (split_lines status_str)))"

definition matched_glyphs :: "string \<Rightarrow> string" where
  "matched_glyphs status_str = filter (glyph_matched status_str) ''!+-?''"

text \<open>
  The exception that the git commands of one construction raise, if any: the status is
  read first, the branches second, and the tags only for a detached head.
\<close>

definition raised :: "git_runs \<Rightarrow> exn option" where
  "raised g =
     (case git_status g of
        Inl e \<Rightarrow> Some e
      | Inr status_str \<Rightarrow>
          (case git_branch g of
             Inl e \<Rightarrow> Some e
           | Inr git_info_str \<Rightarrow>
               (if search GIT_COMMIT_OR_TAG_REGEX git_info_str False = None then None
                else (case git_tag g of Inl e \<Rightarrow> Some e | Inr out \<Rightarrow> None))))"

text \<open>
  The text \<^verbatim>\<open>* (HEAD detached at X)\<close> stands at position \<open>i\<close> of a branch listing, with \<open>X\<close>
  inside one line; the marker \<^verbatim>\<open>* \<close> of the current branch stands at position \<open>i\<close>.
\<close>

definition detached_at :: "string \<Rightarrow> nat \<Rightarrow> string \<Rightarrow> bool" where
  "detached_at s i X =
     (prefix (''* (HEAD detached at '' @ X @ '')'') (drop i s) \<and> newline \<notin> set X)"

definition branch_at :: "string \<Rightarrow> nat \<Rightarrow> bool" where
  "branch_at s i = prefix ''* '' (drop i s)"

text \<open>The text before the last closing parenthesis of the first line of \<open>s\<close>, if there is one.\<close>

fun before_last_paren :: "string \<Rightarrow> string option" where
  "before_last_paren [] = None"
| "before_last_paren (c # cs) =
     (if c = newline then None
      else (case before_last_paren cs of
              Some x \<Rightarrow> Some (c # x)
            | None \<Rightarrow> (if c = CHR '')'' then Some [] else None)))"

text \<open>The first line of a text, without its newline.\<close>

abbreviation first_line :: "string \<Rightarrow> string" where
  "first_line s \<equiv> takeWhile (\<lambda>c. c \<noteq> newline) s"

text \<open>The position before which the character \<open>p\<close> stands starts a line.\<close>

definition at_bol :: "char option \<Rightarrow> bool" where
  "at_bol p = (p = None \<or> p = Some newline)"

section \<open>The two renderers\<close>

subsection \<open>Integers read from text\<close>

text \<open>
  \<^verbatim>\<open>int(s)\<close> for a string: whitespace around the number is dropped, a sign may come first,
  and the digits may be grouped by single underscores. Anything else raises \<^verbatim>\<open>ValueError\<close>.
  The whitespace that \<^verbatim>\<open>int\<close> drops is that of \<^verbatim>\<open>str.strip\<close> without the four separators
  \<^verbatim>\<open>0x1C\<close> to \<^verbatim>\<open>0x1F\<close>, which \<^verbatim>\<open>int\<close> refuses.
\<close>

definition is_digit :: "char \<Rightarrow> bool" where
  "is_digit c = (c \<in> set ''0123456789'')"

definition digit_value :: "char \<Rightarrow> nat" where
  "digit_value c = of_char c - 48"

fun parse_digits :: "nat \<Rightarrow> string \<Rightarrow> exn + nat" where
  "parse_digits acc [] = Inr acc"
| "parse_digits acc (c # cs) =
     (if is_digit c then parse_digits (10 * acc + digit_value c) cs
      else if c = CHR ''_'' \<and> cs \<noteq> [] \<and> is_digit (hd cs) then parse_digits acc cs
      else Inl ValueError)"

definition py_digits :: "string \<Rightarrow> exn + nat" where
  "py_digits s = (if s \<noteq> [] \<and> is_digit (hd s) then parse_digits 0 s else Inl ValueError)"

definition strip :: "string \<Rightarrow> string" where
  "strip s = rev (dropWhile isspace (rev (dropWhile isspace s)))"

definition int_space :: "char \<Rightarrow> bool" where
  "int_space c = (c \<in> set [CHR 0x09, CHR 0x0A, CHR 0x0B, CHR 0x0C, CHR 0x0D, CHR 0x20, CHR 0x85,
     CHR 0xA0])"

definition py_int :: "string \<Rightarrow> exn + int" where
  "py_int s =
     (case rev (dropWhile int_space (rev (dropWhile int_space s))) of
        [] \<Rightarrow> Inl ValueError
      | c # cs \<Rightarrow>
          if c = CHR ''-'' then (case py_digits cs of Inl e \<Rightarrow> Inl e | Inr n \<Rightarrow> Inr (- int n))
          else if c = CHR ''+'' then (case py_digits cs of Inl e \<Rightarrow> Inl e | Inr n \<Rightarrow> Inr (int n))
          else (case py_digits (c # cs) of Inl e \<Rightarrow> Inl e | Inr n \<Rightarrow> Inr (int n)))"

text \<open>\<^verbatim>\<open>int(d.get(key, default))\<close> for a dictionary of strings and an integer default.\<close>

definition int_of_env :: "(string \<rightharpoonup> string) \<Rightarrow> string \<Rightarrow> int \<Rightarrow> exn + int" where
  "int_of_env env key default_value =
     (case env key of None \<Rightarrow> Inr default_value | Some s \<Rightarrow> py_int s)"

subsection \<open>The remaining fragments\<close>

text \<open>\<^verbatim>\<open>path.split("/")[-1]\<close>: what follows the last slash.\<close>

definition last_segment :: "string \<Rightarrow> string" where
  "last_segment path = rev (takeWhile (\<lambda>c. c \<noteq> CHR ''/'') (rev path))"

text \<open>
  \<^verbatim>\<open>VirtualEnvFragment\<close> of \<^verbatim>\<open>async_prompt.py\<close>: the path is given, and an empty path leaves
  the content empty.
\<close>

definition VirtualEnvFragment :: "string \<Rightarrow> Colors \<Rightarrow> format_str \<Rightarrow> PromptPart" where
  "VirtualEnvFragment virtual_env_path c format_str =
     (let p = PromptPart_init\<lparr>color := c\<rparr>
      in if virtual_env_path \<noteq> []
         then p\<lparr>content := format1 format_str (last_segment virtual_env_path)\<rparr>
         else p)"

text \<open>
  \<^verbatim>\<open>VirtualEnvFragment\<close> and \<^verbatim>\<open>CondaEnvFragment\<close> of \<^verbatim>\<open>prompt.py\<close>: the variable is read from
  the environment; without it the \<^verbatim>\<open>KeyError\<close> is caught and the part stays as it was
  initialised, with it the content is set even for an empty path.
\<close>

definition EnvFragment_cli ::
  "(string \<rightharpoonup> string) \<Rightarrow> string \<Rightarrow> Colors \<Rightarrow> format_str \<Rightarrow> PromptPart" where
  "EnvFragment_cli environ var c format_str =
     (case environ var of
        None \<Rightarrow> PromptPart_init
      | Some path \<Rightarrow>
          PromptPart_init\<lparr>content := format1 format_str (last_segment path), color := c\<rparr>)"

definition VirtualEnvFragment_cli ::
  "(string \<rightharpoonup> string) \<Rightarrow> Colors \<Rightarrow> format_str \<Rightarrow> PromptPart" where
  "VirtualEnvFragment_cli environ c format_str =
     EnvFragment_cli environ ''VIRTUAL_ENV'' c format_str"

definition CondaEnvFragment_cli ::
  "(string \<rightharpoonup> string) \<Rightarrow> Colors \<Rightarrow> format_str \<Rightarrow> PromptPart" where
  "CondaEnvFragment_cli environ c format_str =
     EnvFragment_cli environ ''CONDA_DEFAULT_ENV'' c format_str"

text \<open>
  \<^verbatim>\<open>TimeFragment\<close> with its default format \<^verbatim>\<open>[%H:%M:%S]\<close>; the clock is what
  \<^verbatim>\<open>datetime.now()\<close> gives.
\<close>

record clock =
  hour :: nat
  minute :: nat
  second :: nat

definition two_digits :: "nat \<Rightarrow> string" where
  "two_digits n = (if n < 10 then ''0'' @ str_nat n else str_nat n)"

definition TimeFragment :: "clock \<Rightarrow> Colors \<Rightarrow> PromptPart" where
  "TimeFragment now c =
     PromptPart_init
       \<lparr>content := ''['' @ two_digits (hour now) @ '':'' @ two_digits (minute now) @ '':''
          @ two_digits (second now) @ '']'',
        color := c\<rparr>"

text \<open>\<^verbatim>\<open>ReturnStatusFragment\<close>, for the exit status as an integer.\<close>

definition ReturnStatusFragment :: "int \<Rightarrow> Colors \<Rightarrow> format_str \<Rightarrow> PromptPart" where
  "ReturnStatusFragment return_status c format_str =
     (let p = PromptPart_init\<lparr>color := c\<rparr>
      in if return_status \<noteq> 0 then p\<lparr>content := format1 format_str (str_int return_status)\<rparr>
         else p)"

text \<open>
  The format strings of the callers. The glyphs are written as their UTF-8 bytes: the
  return sign, the snake, the hexagon and the arrow.
\<close>

definition return_format :: format_str where
  "return_format = ([], [CHR '' '', CHR 0xE2, CHR 0x8F, CHR 0x8E])"

definition snake_format :: format_str where
  "snake_format = ([CHR ''['', CHR 0xF0, CHR 0x9F, CHR 0x90, CHR 0x8D], '']'')"

definition hexagon_format :: format_str where
  "hexagon_format = ([CHR ''['', CHR 0xE2, CHR 0xAC, CHR 0xA1, CHR '' ''], '']'')"

definition arrow :: string where
  "arrow = [CHR 0xE2, CHR 0x9E, CHR 0xA4, CHR '' '']"

text \<open>A part counts as true when its \<^verbatim>\<open>__len__\<close> is not zero.\<close>

definition part_true :: "PromptPart \<Rightarrow> bool" where
  "part_true p = (len_part p \<noteq> 0)"

subsection \<open>The server\<close>

text \<open>
  The dictionary \<^verbatim>\<open>prompt_dir\<close> of \<^verbatim>\<open>handle_client\<close>, as the triple of its topline, prompt
  and rprompt. \<open>client_environment\<close> is the environment that the client sent, \<open>HOME\<close> the
  global of the server, \<open>git\<close> what the git commands give in the client's directory. A
  client without \<^verbatim>\<open>PWD\<close> makes \<^verbatim>\<open>run\<close> raise \<^verbatim>\<open>TypeError\<close> in the git fragment.
\<close>

definition prompt_dir ::
  "(string \<rightharpoonup> string) \<Rightarrow> string \<Rightarrow> git_runs \<Rightarrow> clock
     \<Rightarrow> exn + string \<times> string \<times> string" where
  "prompt_dir client_environment HOME git now =
     (case client_environment ''PWD'' of
        None \<Rightarrow> Inl (OtherError ''TypeError'')
      | Some pwd \<Rightarrow>
     (case GitInfoFragment git git_format blue indicators_default of
        Inl e \<Rightarrow> Inl e
      | Inr git_part \<Rightarrow>
          (let left_container =
                 \<lparr>separator = [],
                  parts = [git_part,
                    LastCommandFragment (client_environment ''LAST_CMD'') green last_cmd_format]\<rparr>;
               center_container =
                 \<lparr>separator = RULE_CHAR, parts = [PWDFragment HOME pwd teal 60 paren_format]\<rparr>;
               right_container = \<lparr>separator = RULE_CHAR, parts = [TimeFragment now gray]\<rparr>;
               prompt_str =
                 join [] (map str_part (filter part_true
                   [VirtualEnvFragment
                      (case client_environment ''VIRTUAL_ENV'' of None \<Rightarrow> [] | Some v \<Rightarrow> v)
                      teal snake_format,
                    VirtualEnvFragment
                      (case client_environment ''NODE_VIRTUAL_ENV'' of None \<Rightarrow> [] | Some v \<Rightarrow> v)
                      green hexagon_format,
                    ColoredTextFragment arrow red]))
           in (case int_of_env client_environment ''COLS'' 80 of
                 Inl e \<Rightarrow> Inl e
               | Inr terminal_width \<Rightarrow>
                   (let topline =
                          fst (embed_in_horizontal_rule terminal_width left_container
                                 center_container right_container RULE_CHAR)
                    in (case int_of_env client_environment ''LAST_EXIT_CODE'' 0 of
                          Inl e \<Rightarrow> Inl e
                        | Inr return_status \<Rightarrow>
                            Inr (topline, prompt_str,
                                 str_part (ReturnStatusFragment return_status red
                                   return_format))))))))"

text \<open>\<^verbatim>\<open>OUTPUT.format(**prompt_dir)\<close> of \<^verbatim>\<open>async_prompt.py\<close>.\<close>

definition OUTPUT :: "string \<Rightarrow> string \<Rightarrow> string \<Rightarrow> string" where
  "OUTPUT topline prompt rprompt =
     ''function topline(){'' @ [newline]
     @ ''    echo '' @ [squote] @ topline @ [squote] @ [newline]
     @ ''};'' @ [newline]
     @ ''topline;'' @ [newline]
     @ ''export PROMPT='' @ [dquote] @ ''$(echo '' @ [dquote] @ prompt @ [dquote] @ '')''
       @ [dquote] @ '';'' @ [newline]
     @ ''export RPROMPT='' @ [dquote] @ ''$(echo '' @ [dquote] @ rprompt @ [dquote] @ '')''
       @ [dquote] @ '';'' @ [newline]
     @ ''export LAST_CMD='' @ [dquote, dquote] @ [newline]"

text \<open>
  \<^verbatim>\<open>handle_client\<close> from the parsed environment on: the text that it writes to the client,
  before the encoding as UTF-8.
\<close>

definition handle_client ::
  "(string \<rightharpoonup> string) \<Rightarrow> string \<Rightarrow> git_runs \<Rightarrow> clock \<Rightarrow> exn + string" where
  "handle_client client_environment HOME git now =
     (case prompt_dir client_environment HOME git now of
        Inl e \<Rightarrow> Inl e
      | Inr (topline, prompt, rprompt) \<Rightarrow> Inr (OUTPUT topline prompt rprompt))"

subsection \<open>The command line program\<close>

text \<open>
  The dictionary \<^verbatim>\<open>prompt_dir\<close> of \<^verbatim>\<open>main\<close> in \<^verbatim>\<open>prompt.py\<close>, after the globals that the module
  reads from its environment: \<open>user\<close> is what \<^verbatim>\<open>getuser()\<close> gives, \<open>tput_cols\<close> the output
  of \<^verbatim>\<open>tput cols\<close> or the exception of its \<^verbatim>\<open>run\<close>.
\<close>

definition prompt_dir_cli ::
  "(string \<rightharpoonup> string) \<Rightarrow> string \<Rightarrow> exn + string \<Rightarrow> git_runs \<Rightarrow> clock
     \<Rightarrow> exn + string \<times> string \<times> string" where
  "prompt_dir_cli environ user tput_cols git now =
     (let HOME = (case environ ''HOME'' of None \<Rightarrow> ''/home/'' @ user | Some h \<Rightarrow> h)
      in (case int_of_env environ ''LAST_EXIT_CODE'' 0 of
            Inl e \<Rightarrow> Inl e
          | Inr LAST_EXIT_CODE \<Rightarrow>
     (let LAST_CMD = (case environ ''LAST_CMD'' of None \<Rightarrow> [] | Some v \<Rightarrow> v);
          PWD = (case environ ''PWD'' of None \<Rightarrow> ''Unknown'' | Some v \<Rightarrow> v)
      in (case GitInfoFragment git git_format blue indicators_default of
            Inl e \<Rightarrow> Inl e
          | Inr git_part \<Rightarrow>
              (let left_container =
                     \<lparr>separator = [],
                      parts = [git_part, LastCommandFragment_cli LAST_CMD green last_cmd_format]\<rparr>;
                   center_container =
                     \<lparr>separator = RULE_CHAR, parts = [PWDFragment HOME PWD teal 60 paren_format]\<rparr>;
                   right_container = \<lparr>separator = RULE_CHAR, parts = [TimeFragment now gray]\<rparr>;
                   prompt_str =
                     join '' '' (map str_part (filter part_true
                       [VirtualEnvFragment_cli environ teal paren_format,
                        CondaEnvFragment_cli environ green paren_format,
                        ColoredTextFragment arrow red]))
               in (case tput_cols of
                     Inl e \<Rightarrow> Inl e
                   | Inr cols \<Rightarrow>
                       (case py_int (strip cols) of
                          Inl e \<Rightarrow> Inl e
                        | Inr terminal_width \<Rightarrow>
                            (case fst (embed_in_horizontal_rule_cli terminal_width
                                         left_container center_container right_container
                                         RULE_CHAR) of
                               Inl e \<Rightarrow> Inl e
                             | Inr topline \<Rightarrow>
                                 Inr (topline, prompt_str,
                                      str_part (ReturnStatusFragment LAST_EXIT_CODE red
                                        return_format))))))))))"

text \<open>\<^verbatim>\<open>OUTPUT.format(**prompt_dir)\<close> of \<^verbatim>\<open>prompt.py\<close>.\<close>

definition OUTPUT_cli :: "string \<Rightarrow> string \<Rightarrow> string \<Rightarrow> string" where
  "OUTPUT_cli topline prompt rprompt =
     ''function topline(){'' @ [newline]
     @ ''    echo '' @ [squote] @ topline @ [squote] @ [newline]
     @ ''};'' @ [newline]
     @ ''topline;'' @ [newline]
     @ ''export PROMPT='' @ [squote] @ prompt @ [squote] @ '';'' @ [newline]
     @ ''export RPROMPT='' @ [squote] @ rprompt @ [squote] @ [newline]
     @ ''export LAST_CMD='' @ [dquote, dquote] @ [newline]"

text \<open>\<^verbatim>\<open>main\<close>: what it prints, with the newline that \<^verbatim>\<open>print\<close> adds.\<close>

definition main ::
  "(string \<rightharpoonup> string) \<Rightarrow> string \<Rightarrow> exn + string \<Rightarrow> git_runs \<Rightarrow> clock \<Rightarrow> exn + string" where
  "main environ user tput_cols git now =
     (case prompt_dir_cli environ user tput_cols git now of
        Inl e \<Rightarrow> Inl e
      | Inr (topline, prompt, rprompt) \<Rightarrow> Inr (OUTPUT_cli topline prompt rprompt @ [newline]))"

section \<open>Example inputs\<close>



text \<open>The three containers of a top line: a last command, a directory and a time.\<close>

definition left_example :: PromptPartContainer where
  "left_example =
     \<lparr>separator = [], parts = [LastCommandFragment (Some ''git status'') green last_cmd_format]\<rparr>"


definition left_example_cli :: PromptPartContainer where
  "left_example_cli =
     \<lparr>separator = [], parts = [LastCommandFragment_cli ''git status'' green last_cmd_format]\<rparr>"

definition center_example :: PromptPartContainer where
  "center_example = \<lparr>separator = RULE_CHAR, parts = [ColoredTextFragment ''(~)'' teal]\<rparr>"

definition right_example :: PromptPartContainer where
  "right_example = \<lparr>separator = RULE_CHAR, parts = [ColoredTextFragment ''[12:00:00]'' gray]\<rparr>"

text \<open>A status with an added, a modified and an untracked file, on the branch \<^verbatim>\<open>main\<close>.\<close>

definition status_example :: string where
  "status_example =
     ''A  new.txt'' @ [newline] @ '' M changed.txt'' @ [newline] @ ''?? untracked.txt''
       @ [newline]"

definition git_example :: git_runs where
  "git_example =
     \<lparr>git_status = Inr status_example, git_branch = Inr (''* main'' @ [newline]),
      git_tag = Inr []\<rparr>"

text \<open>Two added files.\<close>

definition two_added_example :: git_runs where
  "two_added_example =
     \<lparr>git_status = Inr (''A  a.txt'' @ [newline] @ ''A  b.txt'' @ [newline]),
      git_branch = Inr (''* main'' @ [newline]), git_tag = Inr []\<rparr>"

text \<open>A head detached at \<^verbatim>\<open>1.2\<close> in a repository whose only tag is \<^verbatim>\<open>v1.2.3\<close>.\<close>

definition detached_example :: git_runs where
  "detached_example =
     \<lparr>git_status = Inr [], git_branch = Inr (''* (HEAD detached at 1.2)'' @ [newline]),
      git_tag = Inr (''v1.2.3'' @ [newline])\<rparr>"

text \<open>No git binary: every \<^verbatim>\<open>run\<close> raises \<^verbatim>\<open>FileNotFoundError\<close>.\<close>

definition no_git_example :: git_runs where
  "no_git_example =
     \<lparr>git_status = Inl FileNotFoundError, git_branch = Inl FileNotFoundError,
      git_tag = Inl FileNotFoundError\<rparr>"

text \<open>Outside a repository: every git command exits with a failure.\<close>

definition no_repository_example :: git_runs where
  "no_repository_example =
     \<lparr>git_status = Inl CalledProcessError, git_branch = Inl CalledProcessError,
      git_tag = Inl CalledProcessError\<rparr>"

text \<open>The tag command runs into its timeout.\<close>

definition tag_timeout_example :: git_runs where
  "tag_timeout_example =
     \<lparr>git_status = Inr [], git_branch = Inr (''* (HEAD detached at 1.2)'' @ [newline]),
      git_tag = Inl TimeoutExpired\<rparr>"

text \<open>Branch listings: a head detached at \<^verbatim>\<open>v1.2.3\<close>, the branch \<^verbatim>\<open>main\<close>, and none.\<close>

definition detached_listing :: string where
  "detached_listing = ''* (HEAD detached at v1.2.3)'' @ [newline] @ ''  main'' @ [newline]"

definition branch_listing :: string where
  "branch_listing = ''  dev'' @ [newline] @ ''* main'' @ [newline]"

definition git_listing :: "string \<Rightarrow> string \<Rightarrow> git_runs" where
  "git_listing b t = \<lparr>git_status = Inr [], git_branch = Inr b, git_tag = Inr t\<rparr>"

text \<open>A working directory of 76 characters under the home directory \<^verbatim>\<open>/home/u\<close>.\<close>

definition long_pwd :: string where
  "long_pwd = ''/home/u/projects/alpha/beta/gamma/delta/epsilon/zeta/eta/theta/iota/kappa/la''"

text \<open>
  A render context: a shell in \<^verbatim>\<open>/home/u/src\<close> with a virtual environment, on a terminal
  of 81 columns, at noon.
\<close>

definition context_environment :: "string \<rightharpoonup> string" where
  "context_environment =
     map_of [(''HOME'', ''/home/u''), (''PWD'', ''/home/u/src''), (''COLS'', ''81''),
       (''LAST_EXIT_CODE'', ''1''), (''VIRTUAL_ENV'', ''/home/u/venv'')]"

definition noon :: clock where
  "noon = \<lparr>hour = 12, minute = 0, second = 0\<rparr>"

text \<open>The same shell without a virtual environment, after the command \<^verbatim>\<open>make test\<close>.\<close>

definition plain_environment :: "string \<rightharpoonup> string" where
  "plain_environment =
     map_of [(''HOME'', ''/home/u''), (''PWD'', ''/home/u/src''), (''COLS'', ''81''),
       (''LAST_EXIT_CODE'', ''1''), (''LAST_CMD'', ''make test'')]"

text \<open>
  A shell in the home directory, outside any repository, after \<^verbatim>\<open>git status\<close>, on a
  terminal of 20 columns.
\<close>

definition narrow_environment :: "string \<rightharpoonup> string" where
  "narrow_environment =
     map_of [(''HOME'', ''/home/u''), (''PWD'', ''/home/u''), (''COLS'', ''20''),
       (''LAST_CMD'', ''git status'')]"


section \<open>Widths and renderings of containers\<close>

lemma len_part_zero_width: "len_part (p\<lparr>zero_width := b\<rparr>) = len_part p"
  by (simp add: len_part_def split: part_class.splits)


lemma len_container_disable_zero_width:
  "len_container (disable_zero_width c) = len_container c"
  by (simp add: len_container_def disable_zero_width_def o_def len_part_zero_width)








section \<open>The horizontal rule of the server\<close>

lemma embed_in_horizontal_rule_padded:
  "0 < w - int (len_container l) - int (len_container r) - int (len_container c) \<Longrightarrow>
   fst (embed_in_horizontal_rule w l c r rc) =
     str_container (disable_zero_width l)
     @ str_mul rc ((w - int (len_container l) - int (len_container r) - int (len_container c)) div 2
          + (w - int (len_container l) - int (len_container r) - int (len_container c)) mod 2)
     @ str_container (disable_zero_width c)
     @ str_mul rc ((w - int (len_container l) - int (len_container r) - int (len_container c)) div 2)
     @ str_container (disable_zero_width r)"
  by (simp add: embed_in_horizontal_rule_def Let_def len_container_disable_zero_width)

text \<open>
  When the center fills the middle or overflows it, the server's rule is the three
  renderings one after the other: nothing is cut and nothing is raised.
\<close>

lemma embed_in_horizontal_rule_unpadded:
  "w - int (len_container l) - int (len_container r) - int (len_container c) \<le> 0 \<Longrightarrow>
   fst (embed_in_horizontal_rule w l c r rc) =
     str_container (disable_zero_width l) @ str_container (disable_zero_width c)
     @ str_container (disable_zero_width r)"
  by (simp add: embed_in_horizontal_rule_def Let_def len_container_disable_zero_width)




section \<open>The horizontal rule of the command line program\<close>

text \<open>
  C4. When the center is at least as wide as the middle budget, the compositor returns
  the left, the center and the right rendering without padding, cuts nothing and raises
  nothing. The server's compositor does so (\<open>embed_in_horizontal_rule_unpadded\<close>); the one
  of \<^verbatim>\<open>prompt.py\<close> does not. At 20 columns, with the last command \<^verbatim>\<open>git status\<close> (12 wide) on
  the left and the time (10 wide) on the right, the middle budget is -2: the center, 3
  wide, overflows it, and \<^verbatim>\<open>str.format\<close> raises \<^verbatim>\<open>ValueError\<close> where the server's compositor
  returns the three renderings. So \<^verbatim>\<open>main\<close> ends with this exception in a shell of 20 columns
  after the command \<^verbatim>\<open>git status\<close>, while the server answers.
\<close>

theorem embed_in_horizontal_rule_cli_overflow_raises:
  "20 - int (len_container left_example_cli) - int (len_container right_example)
       - int (len_container center_example) = - 5
   \<and> fst (embed_in_horizontal_rule_cli 20 left_example_cli center_example right_example RULE_CHAR)
       = Inl ValueError
   \<and> fst (embed_in_horizontal_rule 20 left_example center_example right_example RULE_CHAR)
       = str_container (disable_zero_width left_example)
         @ str_container (disable_zero_width center_example)
         @ str_container (disable_zero_width right_example)
   \<and> main narrow_environment ''u'' (Inr (''20'' @ [newline])) no_repository_example noon
       = Inl ValueError
   \<and> handle_client narrow_environment ''/home/u'' no_repository_example noon
       \<noteq> Inl ValueError"
  by code_simp

text \<open>
  With an odd fill \<^verbatim>\<open>str.format\<close> puts the extra rule character to the right of the center:
  at 32 columns the fill of 7 is split into 3 and 4.
\<close>

lemma embed_in_horizontal_rule_cli_odd_fill:
  "fst (embed_in_horizontal_rule_cli 32 left_example_cli center_example right_example RULE_CHAR)
     = Inr (str_container (disable_zero_width left_example_cli) @ ''~~~''
            @ str_container (disable_zero_width center_example) @ ''~~~~''
            @ str_container (disable_zero_width right_example))"
  by code_simp

section \<open>The declared width of a last command\<close>

text \<open>
  C8. The declared width of a last command fragment is the length of the command as it
  was typed plus 2, whatever the quoting made of it, and 0 for an empty or absent command;
  so it is for both programs.
\<close>

theorem last_command_declared_width:
  "len_part (LastCommandFragment (Some cmd) c f) = (if cmd = [] then 0 else length cmd + 2)
   \<and> len_part (LastCommandFragment None c f) = 0
   \<and> len_part (LastCommandFragment_cli cmd c f) = (if cmd = [] then 0 else length cmd + 2)"
  by (simp add: len_part_def LastCommandFragment_def LastCommandFragment_cli_def
      PromptPart_init_def)

text \<open>
  The command \<^verbatim>\<open>a\b c\<close> has 5 characters and is declared 7 wide; its content has 12
  characters in the server and 14 in the command line program.
\<close>

theorem last_command_declared_width_witness:
  "len_part (LastCommandFragment (Some [CHR ''a'', backslash, CHR ''b'', CHR '' '', CHR ''c''])
       green last_cmd_format) = 7
   \<and> length (content (LastCommandFragment
       (Some [CHR ''a'', backslash, CHR ''b'', CHR '' '', CHR ''c'']) green last_cmd_format)) = 12
   \<and> len_part (LastCommandFragment_cli [CHR ''a'', backslash, CHR ''b'', CHR '' '', CHR ''c'']
       green last_cmd_format) = 7
   \<and> length (content (LastCommandFragment_cli
       [CHR ''a'', backslash, CHR ''b'', CHR '' '', CHR ''c''] green last_cmd_format)) = 14"
proof -
  have a: "length (content (LastCommandFragment
       (Some [CHR ''a'', backslash, CHR ''b'', CHR '' '', CHR ''c'']) green last_cmd_format)) = 12"
    by code_simp
  have b: "length (content (LastCommandFragment_cli
       [CHR ''a'', backslash, CHR ''b'', CHR '' '', CHR ''c''] green last_cmd_format)) = 14"
    by code_simp
  show ?thesis
    using last_command_declared_width
      [of "[CHR ''a'', backslash, CHR ''b'', CHR '' '', CHR ''c'']" green last_cmd_format] a b
    by simp
qed

section \<open>What the rule changes in its arguments\<close>

text \<open>
  C9 (amended). The horizontal rule of either program leaves the separator of each
  container and the content, the colour, the class and the last command of each part as
  they were, and switches the \<open>zero_width\<close> flag of every part off. Joining a container
  and computing a width are functions of the container and assign nothing.
\<close>

theorem embed_in_horizontal_rule_only_zero_width_off:
  "only_zero_width_off l (fst (snd (embed_in_horizontal_rule w l c r rc)))
   \<and> only_zero_width_off c (fst (snd (snd (embed_in_horizontal_rule w l c r rc))))
   \<and> only_zero_width_off r (snd (snd (snd (embed_in_horizontal_rule w l c r rc))))
   \<and> snd (embed_in_horizontal_rule_cli w l c r rc) = snd (embed_in_horizontal_rule w l c r rc)"
  by (simp add: embed_in_horizontal_rule_def embed_in_horizontal_rule_cli_def Let_def
      only_zero_width_off_def disable_zero_width_def o_def map_replicate_const)

theorem embed_in_horizontal_rule_only_zero_width_off_witness:
  "only_zero_width_off center_example
     (fst (snd (snd (embed_in_horizontal_rule 32 left_example center_example right_example
        RULE_CHAR))))
   \<and> map content (parts (fst (snd (snd (embed_in_horizontal_rule 32 left_example center_example
        right_example RULE_CHAR))))) = [''(~)'']"
proof -
  have "map content (parts (fst (snd (snd (embed_in_horizontal_rule 32 left_example
        center_example right_example RULE_CHAR))))) = [''(~)'']"
    by code_simp
  then show ?thesis
    using embed_in_horizontal_rule_only_zero_width_off
      [of left_example 32 center_example right_example RULE_CHAR]
    by simp
qed

text \<open>
  C9 as stated fails: the directory fragment is built with \<open>zero_width\<close> on, and the rule
  leaves it off.
\<close>

theorem embed_in_horizontal_rule_zero_width_counterexample:
  "map zero_width (parts center_example) = [True]
   \<and> map zero_width (parts (fst (snd (snd (embed_in_horizontal_rule 32 left_example
        center_example right_example RULE_CHAR))))) = [False]"
  by code_simp

section \<open>The matcher on the patterns of the source\<close>

lemma rmatch_lit:
  "rmatch ml (lit l @ re) p s r g =
     (if prefix l s
      then rmatch ml re (if l = [] then p else Some (last l)) (drop (length l) s) r
             (if r then g @ l else g)
      else None)"
proof (induction l arbitrary: p s g)
  case Nil
  then show ?case by (simp add: lit_def)
next
  case (Cons a l)
  have IH: "rmatch ml (lit l @ re) p s r g =
     (if prefix l s
      then rmatch ml re (if l = [] then p else Some (last l)) (drop (length l) s) r
             (if r then g @ l else g)
      else None)" for p s g
    using Cons.IH by simp
  show ?case
  proof (cases s)
    case Nil
    then show ?thesis by (simp add: lit_def)
  next
    case (Cons c cs)
    have "rmatch ml (lit (a # l) @ re) p (c # cs) r g =
            (if c = a then rmatch ml (lit l @ re) (Some c) cs r (if r then g @ [c] else g) else None)"
      by (simp add: lit_def)
    then show ?thesis
      using Cons by (auto simp add: IH)
  qed
qed

lemma star_dot_eol: "rmatch True [Star Dot, Eol] p s r g \<noteq> None"
proof (induction s arbitrary: p g)
  case Nil
  then show ?case by simp
next
  case (Cons c cs)
  show ?case
  proof (cases "c = newline")
    case True
    then show ?thesis by simp
  next
    case False
    obtain y where "rmatch True [Star Dot, Eol] (Some c) cs r (if r then g @ [c] else g) = Some y"
      using Cons.IH by blast
    with False show ?thesis by simp
  qed
qed

lemma star_dot_eol_Some: "\<exists>y. rmatch True [Star Dot, Eol] p s r g = Some y"
  using star_dot_eol[of p s r g] by blast

lemma rmatch_opt_space:
  assumes "code \<noteq> []"
  shows "(rmatch True ([Bol, Opt Space] @ lit code @ [Star Dot, Eol]) p s False [] \<noteq> None) =
         (at_bol p \<and> (prefix code s \<or> (case s of [] \<Rightarrow> False | c # cs \<Rightarrow> isspace c \<and> prefix code cs)))"
proof (cases s)
  case Nil
  then show ?thesis using assms by (simp add: rmatch_lit at_bol_def)
next
  case (Cons c cs)
  then show ?thesis
    using assms by (auto simp add: rmatch_lit at_bol_def star_dot_eol star_dot_eol_Some split: option.splits)
qed

lemma rmatch_unknown:
  "(rmatch True ([Bol] @ rep 2 (OneOf ''?'') @ lit '' '' @ [Star Dot, Eol]) p s False [] \<noteq> None) =
         (at_bol p \<and> prefix ''?? '' s)"
proof -
  have "[Bol] @ rep 2 (OneOf ''?'') @ lit '' '' @ [Star Dot, Eol]
      = Bol # One (OneOf ''?'') # One (OneOf ''?'') # lit '' '' @ [Star Dot, Eol]"
    by (simp add: rep_def numeral_2_eq_2)
  then show ?thesis
    by (cases s; cases "tl s") (auto simp add: rmatch_lit at_bol_def star_dot_eol star_dot_eol_Some)
qed

lemma prefix_takeWhile:
  "\<forall>x\<in>set code. P x \<Longrightarrow> prefix code (takeWhile P s) = prefix code s"
proof (induction code arbitrary: s)
  case Nil
  then show ?case by simp
next
  case (Cons a code)
  then show ?case by (cases s) auto
qed

lemma split_lines_nonempty: "split_lines s \<noteq> []"
  by (cases s) (auto split: list.splits)

lemma split_lines_Cons:
  "split_lines (c # cs) =
     (if c = newline then [] # split_lines cs
      else (c # hd (split_lines cs)) # tl (split_lines cs))"
  using split_lines_nonempty[of cs] by (auto split: list.splits)

lemma split_lines_hd: "hd (split_lines s) = takeWhile (\<lambda>c. c \<noteq> newline) s"
  by (induction s) (auto simp add: split_lines_Cons simp del: split_lines.simps(2))

lemma list_ex_hd_tl: "xs \<noteq> [] \<Longrightarrow> list_ex P xs = (P (hd xs) \<or> list_ex P (tl xs))"
  by (cases xs) auto

lemma search_at_lines:
  assumes M: "\<And>p s. (rmatch True re p s False [] \<noteq> None) = (at_bol p \<and> Q s)"
    and Q0: "\<not> Q []" and L0: "\<not> L []"
    and Qnl: "\<And>cs. Q (newline # cs) \<Longrightarrow> L (takeWhile (\<lambda>c. c \<noteq> newline) cs)"
    and Qc: "\<And>c cs. c \<noteq> newline \<Longrightarrow> Q (c # cs) = L (c # takeWhile (\<lambda>c. c \<noteq> newline) cs)"
  shows "(search_at True re p s \<noteq> None) =
           ((at_bol p \<and> L (hd (split_lines s))) \<or> list_ex L (tl (split_lines s)))"
proof (induction s arbitrary: p)
  case Nil
  have "(search_at True re p [] \<noteq> None) = (at_bol p \<and> Q [])"
    using M[of p "[]"] by simp
  then show ?case using Q0 L0 by simp
next
  case (Cons c cs)
  have step: "(search_at True re p (c # cs) \<noteq> None) =
          ((at_bol p \<and> Q (c # cs)) \<or> search_at True re (Some c) cs \<noteq> None)"
    using M[of p "c # cs"] by (auto split: option.splits)
  have lines: "split_lines cs = hd (split_lines cs) # tl (split_lines cs)"
    using split_lines_nonempty[of cs] by simp
  show ?case
  proof (cases "c = newline")
    case True
    have "list_ex L (split_lines cs) = (L (hd (split_lines cs)) \<or> list_ex L (tl (split_lines cs)))"
      by (rule list_ex_hd_tl[OF split_lines_nonempty])
    then show ?thesis
      using True step Cons.IH[of "Some c"] Qnl[of cs] L0
      by (auto simp add: at_bol_def split_lines_hd split_lines_Cons simp del: split_lines.simps)
  next
    case False
    then show ?thesis
      using step Cons.IH[of "Some c"] Qc[of c cs]
      by (auto simp add: at_bol_def split_lines_hd split_lines_Cons simp del: split_lines.simps)
  qed
qed

lemma search_lines:
  assumes M: "\<And>p s. (rmatch True re p s False [] \<noteq> None) = (at_bol p \<and> Q s)"
    and Q0: "\<not> Q []" and L0: "\<not> L []"
    and Qnl: "\<And>cs. Q (newline # cs) \<Longrightarrow> L (takeWhile (\<lambda>c. c \<noteq> newline) cs)"
    and Qc: "\<And>c cs. c \<noteq> newline \<Longrightarrow> Q (c # cs) = L (c # takeWhile (\<lambda>c. c \<noteq> newline) cs)"
  shows "(search re s True \<noteq> None) = list_ex L (split_lines s)"
proof -
  have "list_ex L (split_lines s) = (L (hd (split_lines s)) \<or> list_ex L (tl (split_lines s)))"
    by (rule list_ex_hd_tl[OF split_lines_nonempty])
  then show ?thesis
    using search_at_lines[OF M Q0 L0 Qnl Qc, of None s] by (simp add: search_def at_bol_def)
qed

lemma search_opt_space:
  assumes "code \<noteq> []" and "newline \<notin> set code"
  shows "(search ([Bol, Opt Space] @ lit code @ [Star Dot, Eol]) s True \<noteq> None) =
           list_ex (starts_with_opt_space code) (split_lines s)"
proof (rule search_lines[where Q = "starts_with_opt_space code"])
  show "(rmatch True ([Bol, Opt Space] @ lit code @ [Star Dot, Eol]) p s False [] \<noteq> None) =
         (at_bol p \<and> starts_with_opt_space code s)" for p s
    using rmatch_opt_space[OF assms(1)] by (simp add: starts_with_opt_space_def)
  show "\<not> starts_with_opt_space code []"
    using assms(1) by (simp add: starts_with_opt_space_def)
  then show "\<not> starts_with_opt_space code []" .
  have nl: "\<forall>x\<in>set code. x \<noteq> newline"
    using assms(2) by auto
  show "starts_with_opt_space code (takeWhile (\<lambda>c. c \<noteq> newline) cs)"
    if "starts_with_opt_space code (newline # cs)" for cs
  proof -
    have "\<not> prefix code (newline # cs)"
      using assms by (cases code) auto
    with that have "prefix code cs"
      by (simp add: starts_with_opt_space_def)
    then show ?thesis
      using prefix_takeWhile[OF nl, of cs] by (simp add: starts_with_opt_space_def)
  qed
  show "starts_with_opt_space code (c # cs) =
          starts_with_opt_space code (c # takeWhile (\<lambda>c. c \<noteq> newline) cs)"
    if "c \<noteq> newline" for c cs
    using that prefix_takeWhile[OF nl, of cs] prefix_takeWhile[OF nl, of "c # cs"]
    by (simp add: starts_with_opt_space_def)
qed

lemma search_unknown:
  "(search ([Bol] @ rep 2 (OneOf ''?'') @ lit '' '' @ [Star Dot, Eol]) s True \<noteq> None) =
           list_ex unknown_line (split_lines s)"
proof (rule search_lines[where Q = "prefix ''?? ''"])
  show "(rmatch True ([Bol] @ rep 2 (OneOf ''?'') @ lit '' '' @ [Star Dot, Eol]) p s False [] \<noteq> None) =
         (at_bol p \<and> prefix ''?? '' s)" for p s
    by (rule rmatch_unknown)
  show "\<not> prefix ''?? '' []" by simp
  show "\<not> unknown_line []" by (simp add: unknown_line_def)
  have nl: "\<forall>x\<in>set ''?? ''. x \<noteq> newline" by simp
  show "unknown_line (takeWhile (\<lambda>c. c \<noteq> newline) cs)" if "prefix ''?? '' (newline # cs)" for cs
    using that by simp
  show "prefix ''?? '' (c # cs) = unknown_line (c # takeWhile (\<lambda>c. c \<noteq> newline) cs)"
    if "c \<noteq> newline" for c cs
    using that prefix_takeWhile[OF nl, of "c # cs"] by (simp add: unknown_line_def)
qed


section \<open>The git modifier string\<close>

lemma glyph_sort:
  "concat (sort ((if a then [''+''] else []) @ (if m then [''!''] else [])
      @ (if d then [''-''] else []) @ (if u then [''?''] else [])))
   = (if m then ''!'' else []) @ (if a then ''+'' else []) @ (if d then ''-'' else [])
      @ (if u then ''?'' else [])"
  by (cases a; cases m; cases d; cases u) simp_all

lemma sorted_glyphs: "sorted ''!+-?''" 
  by code_simp


text \<open>
  C2 (amended). The modifier string is made of one glyph for each bucket that some line
  of the status belongs to, however many lines do: the glyphs, sorted, are the characters
  of \<^verbatim>\<open>!+-?\<close> whose bucket matched, joined without a separator and put between bars unless
  there is none. For the status lines \<^verbatim>\<open>A  new.txt\<close>, \<^verbatim>\<open> M changed.txt\<close> and
  \<^verbatim>\<open>?? untracked.txt\<close> the modifier string is \<^verbatim>\<open>|!+?|\<close>.
\<close>

theorem mod_str_matched_glyphs:
  assumes "git_status g = Inr status_str"
  shows "mod_str g indicators_default =
           Inr (if matched_glyphs status_str = [] then []
                else ''|'' @ matched_glyphs status_str @ ''|'')
         \<and> sorted (matched_glyphs status_str) \<and> distinct (matched_glyphs status_str)
         \<and> mod_str git_example indicators_default = Inr ''|!+?|''"
proof -
  have a: "(search ([Bol, Opt Space] @ lit ''A  '' @ [Star Dot, Eol]) status_str True \<noteq> None)
             = list_ex added_line (split_lines status_str)"
    using search_opt_space[of "''A  ''" status_str] by (simp add: added_line_def[abs_def])
  have m: "(search ([Bol, Opt Space] @ lit ''M '' @ [Star Dot, Eol]) status_str True \<noteq> None)
             = list_ex modified_line (split_lines status_str)"
    using search_opt_space[of "''M ''" status_str] by (simp add: modified_line_def[abs_def])
  have d: "(search ([Bol, Opt Space] @ lit ''D '' @ [Star Dot, Eol]) status_str True \<noteq> None)
             = list_ex deleted_line (split_lines status_str)"
    using search_opt_space[of "''D ''" status_str] by (simp add: deleted_line_def[abs_def])
  note u = search_unknown[of status_str]
  have mods: "git_mod_info g =
      Inr ((if list_ex added_line (split_lines status_str) then [''added''] else [])
         @ (if list_ex modified_line (split_lines status_str) then [''modified''] else [])
         @ (if list_ex deleted_line (split_lines status_str) then [''deleted''] else [])
         @ (if list_ex unknown_line (split_lines status_str) then [''unknown''] else []))"
    using assms a m d u by (simp add: git_mod_info_def mod_indicator_re_def del: append.simps)
  have look: "lookup_all indicators_default
         ((if a then [''added''] else []) @ (if m then [''modified''] else [])
         @ (if d then [''deleted''] else []) @ (if u then [''unknown''] else []))
       = Inr ((if a then [''+''] else []) @ (if m then [''!''] else [])
      @ (if d then [''-''] else []) @ (if u then [''?''] else []))" for a m d u
    by (cases a; cases m; cases d; cases u) (simp_all add: indicators_default_def)
  have mg: "matched_glyphs status_str =
       (if list_ex modified_line (split_lines status_str) then ''!'' else [])
        @ (if list_ex added_line (split_lines status_str) then ''+'' else [])
        @ (if list_ex deleted_line (split_lines status_str) then ''-'' else [])
        @ (if list_ex unknown_line (split_lines status_str) then ''?'' else [])"
    by (simp add: matched_glyphs_def glyph_matched_def)
  have "mod_str g indicators_default =
           Inr (if matched_glyphs status_str = [] then []
                else ''|'' @ matched_glyphs status_str @ ''|'')"
    unfolding mod_str_def mods mg by (simp only: look sum.case Let_def glyph_sort)
  moreover have "sorted (matched_glyphs status_str)"
    unfolding matched_glyphs_def using sorted_glyphs by (rule sorted_wrt_filter)
  moreover have "distinct (matched_glyphs status_str)"
    unfolding matched_glyphs_def by simp
  moreover have "mod_str git_example indicators_default = Inr ''|!+?|''"
    by code_simp
  ultimately show ?thesis by simp
qed


theorem mod_str_matched_glyphs_witness:
  "git_status git_example = Inr status_example
   \<and> matched_glyphs status_example = ''!+?''
   \<and> mod_str git_example indicators_default = Inr ''|!+?|''
   \<and> mod_str two_added_example indicators_default = Inr ''|+|''"
proof -
  have s: "git_status git_example = Inr status_example"
    by (simp add: git_example_def)
  have g: "matched_glyphs status_example = ''!+?''"
    by code_simp
  have t: "mod_str two_added_example indicators_default = Inr ''|+|''"
    by code_simp
  show ?thesis
    using mod_str_matched_glyphs[OF s] s g t by simp
qed

text \<open>
  C2 as stated fails on its example: the exclamation mark sorts before the plus sign, so
  the modifier string of the three status lines is \<^verbatim>\<open>|!+?|\<close> and not \<^verbatim>\<open>|+!?|\<close>.
\<close>

theorem mod_str_example_counterexample:
  "git_status git_example =
     Inr (''A  new.txt'' @ [newline] @ '' M changed.txt'' @ [newline] @ ''?? untracked.txt''
       @ [newline])
   \<and> mod_str git_example indicators_default = Inr ''|!+?|''
   \<and> mod_str git_example indicators_default \<noteq> Inr ''|+!?|''"
  by code_simp

section \<open>The tag test\<close>

lemma str_in_iff: "str_in x s = (\<exists>pre post. s = pre @ x @ post)"
proof (induction s)
  case Nil
  then show ?case by auto
next
  case (Cons c cs)
  show ?case
  proof
    assume "str_in x (c # cs)"
    then consider "prefix x (c # cs)" | "str_in x cs" by auto
    then show "\<exists>pre post. c # cs = pre @ x @ post"
    proof cases
      case 1
      then obtain post where "c # cs = x @ post" by (auto simp add: prefix_def)
      then have "c # cs = [] @ x @ post" by simp
      then show ?thesis by blast
    next
      case 2
      then obtain pre post where "cs = pre @ x @ post" using Cons.IH by blast
      then have "c # cs = (c # pre) @ x @ post" by simp
      then show ?thesis by blast
    qed
  next
    assume "\<exists>pre post. c # cs = pre @ x @ post"
    then obtain pre post where d: "c # cs = pre @ x @ post" by blast
    show "str_in x (c # cs)"
    proof (cases pre)
      case Nil
      then have "prefix x (c # cs)" using d by (simp add: prefix_def)
      then show ?thesis by simp
    next
      case (Cons a pre')
      then have "cs = pre' @ x @ post" using d by simp
      then have "str_in x cs" using Cons.IH by blast
      then show ?thesis by simp
    qed
  qed
qed


text \<open>
  C10. The name \<open>X\<close> of a detached head counts as a tag exactly when \<open>X\<close> occurs somewhere
  in the output of the tag command, as a substring; a name that is only a part of a tag,
  such as \<^verbatim>\<open>1.2\<close> beside the tag \<^verbatim>\<open>v1.2.3\<close>, is therefore shown as a tag.
\<close>

theorem is_tag_substring:
  assumes "git_tag g = Inr tags"
  shows "(is_tag g X = Inr True) = (\<exists>pre post. tags = pre @ X @ post)
       \<and> (is_tag g X = Inr False) = (\<not> (\<exists>pre post. tags = pre @ X @ post))
       \<and> (git_branch g = Inr b \<and> search GIT_COMMIT_OR_TAG_REGEX b False = Some X
            \<and> (\<exists>pre post. tags = pre @ X @ post)
          \<longrightarrow> head_info g = Inr (''(T) '' @ X))"
  using assms by (auto simp add: is_tag_def head_info_def str_in_iff)


theorem is_tag_substring_witness:
  "git_tag detached_example = Inr (''v1.2.3'' @ [newline])
   \<and> git_branch detached_example = Inr (''* (HEAD detached at 1.2)'' @ [newline])
   \<and> search GIT_COMMIT_OR_TAG_REGEX (''* (HEAD detached at 1.2)'' @ [newline]) False = Some ''1.2''
   \<and> ''v1.2.3'' @ [newline] = ''v'' @ ''1.2'' @ (''.3'' @ [newline])
   \<and> is_tag detached_example ''1.2'' = Inr True
   \<and> head_info detached_example = Inr ''(T) 1.2''"
proof -
  have t: "git_tag detached_example = Inr (''v1.2.3'' @ [newline])"
    and b: "git_branch detached_example = Inr (''* (HEAD detached at 1.2)'' @ [newline])"
    by (simp_all add: detached_example_def)
  have s: "search GIT_COMMIT_OR_TAG_REGEX (''* (HEAD detached at 1.2)'' @ [newline]) False = Some ''1.2''"
    by code_simp
  have d: "''v1.2.3'' @ [newline] = ''v'' @ ''1.2'' @ (''.3'' @ [newline])"
    by simp
  then have e: "\<exists>pre post. ''v1.2.3'' @ [newline] = pre @ ''1.2'' @ post"
    by blast
  have "is_tag detached_example ''1.2'' = Inr True \<and> head_info detached_example = Inr ''(T) 1.2''"
    using is_tag_substring[OF t, of "''1.2''" "''* (HEAD detached at 1.2)'' @ [newline]"] b s e by simp
  with t b s d show ?thesis by blast
qed


section \<open>Exceptions of the git commands\<close>

lemma lookup_all_total:
  "\<forall>k\<in>set ks. d k \<noteq> None \<Longrightarrow> \<exists>vs. lookup_all d ks = Inr vs"
  by (induction ks) auto

lemma lookup_default:
  "\<exists>vs. lookup_all indicators_default (map fst (filter P mod_indicator_re)) = Inr vs"
proof (rule lookup_all_total)
  have "\<forall>k\<in>set (map fst mod_indicator_re). indicators_default k \<noteq> None"
    by (simp add: mod_indicator_re_def indicators_default_def)
  then show "\<forall>k\<in>set (map fst (filter P mod_indicator_re)). indicators_default k \<noteq> None"
    by auto
qed

lemma mod_str_status: "git_status g = Inr s \<Longrightarrow> \<exists>m. mod_str g indicators_default = Inr m"
proof -
  assume s: "git_status g = Inr s"
  obtain vs where "lookup_all indicators_default
      (map fst (filter (\<lambda>(m, re). search re s True \<noteq> None) mod_indicator_re)) = Inr vs"
    using lookup_default by blast
  then show ?thesis
    using s by (simp add: mod_str_def git_mod_info_def Let_def)
qed

lemma mod_str_raises: "git_status g = Inl e \<Longrightarrow> mod_str g indicators_default = Inl e"
  by (simp add: mod_str_def git_mod_info_def)

lemma head_nonempty: "head_info g = Inr h \<Longrightarrow> h \<noteq> []"
  by (auto simp add: head_info_def split: sum.splits option.splits if_splits)


text \<open>
  C6 (amended). When a git command of the construction raises \<^verbatim>\<open>CalledProcessError\<close> or
  \<^verbatim>\<open>TimeoutExpired\<close>, the fragment is the empty part: no content, the default colour. Any
  other exception of a git command leaves the constructor. When no command raises, the
  fragment has a content and the colour it was given.
\<close>

theorem GitInfoFragment_exceptions:
  "(raised g = Some e \<longrightarrow>
      GitInfoFragment g f c indicators_default =
        (if e = CalledProcessError \<or> e = TimeoutExpired then Inr PromptPart_init else Inl e))
   \<and> (raised g = None \<longrightarrow>
        (\<exists>p. GitInfoFragment g f c indicators_default = Inr p \<and> content p \<noteq> [] \<and> color p = c))
   \<and> content PromptPart_init = [] \<and> color PromptPart_init = default_color"
proof -
  have A: "GitInfoFragment g f c indicators_default =
        (if e = CalledProcessError \<or> e = TimeoutExpired then Inr PromptPart_init else Inl e)"
    if "raised g = Some e"
  proof (cases "git_status g")
    case (Inl a)
    then have "a = e" using that by (simp add: raised_def)
    then show ?thesis
      using mod_str_raises[OF Inl] by (cases e) (simp_all add: GitInfoFragment_def)
  next
    case (Inr s)
    then obtain m where m: "mod_str g indicators_default = Inr m"
      using mod_str_status by blast
    have "head_info g = Inl e"
      using that Inr by (auto simp add: raised_def head_info_def is_tag_def split: sum.splits if_splits option.splits)
    then show ?thesis
      using m by (cases e) (simp_all add: GitInfoFragment_def)
  qed
  have B: "\<exists>p. GitInfoFragment g f c indicators_default = Inr p \<and> content p \<noteq> [] \<and> color p = c"
    if r: "raised g = None"
  proof -
    obtain s where s: "git_status g = Inr s"
      using r by (cases "git_status g") (auto simp add: raised_def)
    then obtain m where m: "mod_str g indicators_default = Inr m"
      using mod_str_status by blast
    have "\<exists>h. head_info g = Inr h"
      using r s by (auto simp add: raised_def head_info_def is_tag_def split: sum.splits if_splits option.splits)
    then obtain h where h: "head_info g = Inr h" ..
    show ?thesis
      using m h head_nonempty[OF h] by (simp add: GitInfoFragment_def)
  qed
  show ?thesis using A B by (simp add: PromptPart_init_def)
qed


text \<open>
  Outside a repository the status command fails first; with a detached head the tag
  command is the last to run and may time out. In both cases the fragment is empty.
\<close>

theorem GitInfoFragment_exceptions_witness:
  "raised no_repository_example = Some CalledProcessError
   \<and> GitInfoFragment no_repository_example git_format blue indicators_default
       = Inr PromptPart_init
   \<and> raised tag_timeout_example = Some TimeoutExpired
   \<and> GitInfoFragment tag_timeout_example git_format blue indicators_default
       = Inr PromptPart_init
   \<and> raised git_example = None
   \<and> GitInfoFragment git_example git_format blue indicators_default
       = Inr (PromptPart_init\<lparr>content := ''[(B) main|!+?|]'', color := blue\<rparr>)"
proof -
  have a: "raised no_repository_example = Some CalledProcessError"
    and b: "raised tag_timeout_example = Some TimeoutExpired"
    and c: "raised git_example = None"
    by code_simp+
  have d: "GitInfoFragment git_example git_format blue indicators_default
       = Inr (PromptPart_init\<lparr>content := ''[(B) main|!+?|]'', color := blue\<rparr>)"
    by code_simp
  show ?thesis
    using GitInfoFragment_exceptions
      [of no_repository_example CalledProcessError git_format blue]
      GitInfoFragment_exceptions [of tag_timeout_example TimeoutExpired git_format blue]
      a b c d
    by simp
qed

text \<open>
  C6 as stated fails: without a git binary \<^verbatim>\<open>run\<close> raises \<^verbatim>\<open>FileNotFoundError\<close>, which the
  constructor does not catch, so no fragment is built.
\<close>

theorem GitInfoFragment_uncaught_counterexample:
  "git_status no_git_example = Inl FileNotFoundError
   \<and> GitInfoFragment no_git_example git_format blue indicators_default
       = Inl FileNotFoundError"
  by code_simp

section \<open>The head of the repository\<close>

text \<open>The two patterns with a group, matched at one position.\<close>

lemma rmatch_star_paren:
  "rmatch ml (Star Dot # Close # lit '')'') p s True g =
     map_option (\<lambda>x. g @ x) (before_last_paren s)"
proof (induction s arbitrary: p g)
  case Nil
  then show ?case by (simp add: lit_def)
next
  case (Cons c cs)
  then show ?case by (cases "before_last_paren cs") (simp_all add: lit_def)
qed

lemma rmatch_star_close:
  "rmatch ml [Star Dot, Close] p s True g = Some (g @ first_line s)"
  by (induction s arbitrary: p g) simp_all

lemma before_last_paren_Some:
  "before_last_paren s = Some X \<Longrightarrow>
     \<exists>post. s = X @ '')'' @ post \<and> newline \<notin> set X \<and> CHR '')'' \<notin> set (first_line post)"
proof (induction s arbitrary: X)
  case Nil
  then show ?case by simp
next
  case (Cons c cs)
  show ?case
  proof (cases "before_last_paren cs")
    case None
    have "CHR '')'' \<notin> set (first_line cs)" if "before_last_paren cs = None" for cs
      using that by (induction cs) (auto split: if_splits option.splits)
    then show ?thesis
      using Cons.prems None by (auto split: if_splits)
  next
    case (Some x)
    then obtain post where "cs = x @ '')'' @ post \<and> newline \<notin> set x \<and> CHR '')'' \<notin> set (first_line post)"
      using Cons.IH by blast
    then show ?thesis
      using Cons.prems Some by (auto split: if_splits)
  qed
qed

lemma before_last_paren_longest:
  "s = Y @ '')'' @ post \<Longrightarrow> newline \<notin> set Y \<Longrightarrow>
     \<exists>X. before_last_paren s = Some X \<and> length Y \<le> length X"
proof (induction Y arbitrary: s)
  case Nil
  then show ?case by (cases "before_last_paren post") auto
next
  case (Cons a Y)
  then obtain X where "before_last_paren (Y @ '')'' @ post) = Some X \<and> length Y \<le> length X"
    by fastforce
  then show ?case using Cons.prems by auto
qed

lemma search_at_first:
  assumes F: "\<And>p s. rmatch ml re p s False [] = F s"
  shows "F (drop i s) = Some r \<Longrightarrow> i \<le> length s \<Longrightarrow> (\<forall>j<i. F (drop j s) = None)
           \<Longrightarrow> search_at ml re p s = Some r"
proof (induction s arbitrary: i p)
  case Nil
  then show ?case by (simp add: F)
next
  case (Cons c cs)
  show ?case
  proof (cases i)
    case 0
    then show ?thesis using Cons.prems by (simp add: F)
  next
    case (Suc k)
    have "F (c # cs) = None"
      using Cons.prems(3) Suc by (metis drop0 zero_less_Suc)
    moreover have "search_at ml re (Some c) cs = Some r"
    proof (rule Cons.IH[of k])
      show "F (drop k cs) = Some r" using Cons.prems(1) Suc by simp
      show "k \<le> length cs" using Cons.prems(2) Suc by simp
      show "\<forall>j<k. F (drop j cs) = None"
      proof (intro allI impI)
        fix j assume "j < k"
        then have "Suc j < i" using Suc by simp
        then have "F (drop (Suc j) (c # cs)) = None" using Cons.prems(3) by blast
        then show "F (drop j cs) = None" by simp
      qed
    qed
    ultimately show ?thesis by (simp add: F)
  qed
qed

lemma search_at_none:
  assumes F: "\<And>p s. rmatch ml re p s False [] = F s"
  shows "(\<forall>i. F (drop i s) = None) \<Longrightarrow> search_at ml re p s = None"
proof (induction s arbitrary: p)
  case Nil
  then show ?case by (simp add: F)
next
  case (Cons c cs)
  have "F (c # cs) = None"
    using Cons.prems by (metis drop0)
  moreover have "search_at ml re (Some c) cs = None"
  proof (rule Cons.IH)
    show "\<forall>i. F (drop i cs) = None"
    proof
      fix i
      have "F (drop (Suc i) (c # cs)) = None" using Cons.prems by blast
      then show "F (drop i cs) = None" by simp
    qed
  qed
  ultimately show ?case by (simp add: F)
qed

lemma rmatch_group_paren:
  "rmatch ml (lit l @ [Open, Star Dot, Close] @ lit '')'') p s False [] =
     (if prefix l s then before_last_paren (drop (length l) s) else None)"
  by (subst rmatch_lit) (simp add: rmatch_star_paren option.map_ident)

lemma rmatch_group_rest:
  "rmatch ml (lit l @ [Open, Star Dot, Close]) p s False [] =
     (if prefix l s then Some (first_line (drop (length l) s)) else None)"
  by (subst rmatch_lit) (simp add: rmatch_star_close)

lemma group_paren_sound:
  assumes "(if prefix l s then before_last_paren (drop (length l) s) else None) = Some Y"
  shows "prefix (l @ Y @ '')'') s \<and> newline \<notin> set Y"
proof -
  have p: "prefix l s" and b: "before_last_paren (drop (length l) s) = Some Y"
    using assms by (auto split: if_splits)
  obtain rest where s: "s = l @ rest"
    using p by (auto simp add: prefix_def)
  then have "drop (length l) s = rest" by simp
  then obtain post where "rest = Y @ '')'' @ post" and "newline \<notin> set Y"
    using before_last_paren_Some[OF b] by auto
  then show ?thesis
    using s by (simp add: prefix_def)
qed

lemma group_paren_longest:
  assumes "prefix (l @ Y @ '')'') s" and "newline \<notin> set Y"
  shows "\<exists>X. (if prefix l s then before_last_paren (drop (length l) s) else None) = Some X
           \<and> length Y \<le> length X"
proof -
  obtain post where s: "s = l @ Y @ '')'' @ post"
    using assms(1) by (auto simp add: prefix_def)
  then have d: "drop (length l) s = Y @ '')'' @ post" by simp
  have p: "prefix l s"
    using s by (simp add: prefix_def)
  show ?thesis
    using before_last_paren_longest[OF d assms(2)] p by simp
qed

lemma search_group_paren_Some:
  assumes pre: "prefix (l @ X @ '')'') (drop i b)" and nl: "newline \<notin> set X"
    and first: "\<forall>j Y. prefix (l @ Y @ '')'') (drop j b) \<and> newline \<notin> set Y
                  \<longrightarrow> i < j \<or> (i = j \<and> length Y \<le> length X)"
  shows "search (lit l @ [Open, Star Dot, Close] @ lit '')'') b False = Some X"
proof -
  let ?F = "\<lambda>s. if prefix l s then before_last_paren (drop (length l) s) else None"
  obtain Z where Z: "?F (drop i b) = Some Z" and le: "length X \<le> length Z"
    using group_paren_longest[OF pre nl] by blast
  have Zat: "prefix (l @ Z @ '')'') (drop i b) \<and> newline \<notin> set Z"
    using group_paren_sound[OF Z] .
  then have "length Z \<le> length X"
    using first by blast
  then have len: "length Z = length X"
    using le by simp
  have "Z = X"
    using pre Zat len by (auto simp add: prefix_def append_eq_append_conv)
  then have here: "?F (drop i b) = Some X"
    using Z by simp
  have "drop i b \<noteq> []"
    using pre by auto
  then have inside: "i \<le> length b"
    by simp
  have before: "\<forall>j<i. ?F (drop j b) = None"
  proof (intro allI impI)
    fix j assume ji: "j < i"
    show "?F (drop j b) = None"
    proof (rule ccontr)
      assume "?F (drop j b) \<noteq> None"
      then obtain Y where "?F (drop j b) = Some Y" by blast
      then have "prefix (l @ Y @ '')'') (drop j b) \<and> newline \<notin> set Y"
        by (rule group_paren_sound)
      then show False using first ji by fastforce
    qed
  qed
  show ?thesis
    unfolding search_def
    using search_at_first[where F = ?F, OF rmatch_group_paren here inside before] .
qed

lemma search_group_paren_None:
  assumes "\<forall>j Y. \<not> (prefix (l @ Y @ '')'') (drop j b) \<and> newline \<notin> set Y)"
  shows "search (lit l @ [Open, Star Dot, Close] @ lit '')'') b False = None"
proof -
  let ?F = "\<lambda>s. if prefix l s then before_last_paren (drop (length l) s) else None"
  have "\<forall>i. ?F (drop i b) = None"
  proof
    fix i
    show "?F (drop i b) = None"
    proof (rule ccontr)
      assume "?F (drop i b) \<noteq> None"
      then obtain Y where "?F (drop i b) = Some Y" by blast
      then have "prefix (l @ Y @ '')'') (drop i b) \<and> newline \<notin> set Y"
        by (rule group_paren_sound)
      then show False using assms by blast
    qed
  qed
  then show ?thesis
    unfolding search_def using search_at_none[where F = ?F, OF rmatch_group_paren] by blast
qed

lemma search_group_rest_Some:
  assumes at: "prefix l (drop i b)" and ne: "l \<noteq> []"
    and first: "\<forall>j<i. \<not> prefix l (drop j b)"
  shows "search (lit l @ [Open, Star Dot, Close]) b False = Some (first_line (drop (i + length l) b))"
proof -
  let ?F = "\<lambda>s. if prefix l s then Some (first_line (drop (length l) s)) else None"
  have here: "?F (drop i b) = Some (first_line (drop (i + length l) b))"
    using at by (simp add: add.commute)
  have "drop i b \<noteq> []"
    using at ne by auto
  then have inside: "i \<le> length b"
    by simp
  have before: "\<forall>j<i. ?F (drop j b) = None"
    using first by simp
  show ?thesis
    unfolding search_def
    using search_at_first[where F = ?F, OF rmatch_group_rest here inside before] .
qed

lemma search_group_rest_None:
  assumes "\<forall>j. \<not> prefix l (drop j b)"
  shows "search (lit l @ [Open, Star Dot, Close]) b False = None"
proof -
  let ?F = "\<lambda>s. if prefix l s then Some (first_line (drop (length l) s)) else None"
  have "\<forall>i. ?F (drop i b) = None"
    using assms by simp
  then show ?thesis
    unfolding search_def using search_at_none[where F = ?F, OF rmatch_group_rest] by blast
qed

lemma search_detached_Some:
  assumes "detached_at b i X"
    and "\<forall>j Y. detached_at b j Y \<longrightarrow> i < j \<or> (i = j \<and> length Y \<le> length X)"
  shows "search GIT_COMMIT_OR_TAG_REGEX b False = Some X"
  unfolding GIT_COMMIT_OR_TAG_REGEX_def
  using assms unfolding detached_at_def
  by (intro search_group_paren_Some) blast+

lemma search_detached_None:
  assumes "\<forall>j Y. \<not> detached_at b j Y"
  shows "search GIT_COMMIT_OR_TAG_REGEX b False = None"
  unfolding GIT_COMMIT_OR_TAG_REGEX_def
  using assms unfolding detached_at_def
  by (intro search_group_paren_None) blast

lemma search_branch_Some:
  assumes "branch_at b i" and "\<forall>j<i. \<not> branch_at b j"
  shows "search GIT_REGULAR_BRANCH_REGEX b False = Some (first_line (drop (i + 2) b))"
proof -
  have "search (lit ''* '' @ [Open, Star Dot, Close]) b False
          = Some (first_line (drop (i + length ''* '') b))"
    using assms unfolding branch_at_def by (intro search_group_rest_Some) auto
  then show ?thesis
    by (simp add: GIT_REGULAR_BRANCH_REGEX_def numeral_2_eq_2)
qed

lemma search_branch_None:
  assumes "\<forall>j. \<not> branch_at b j"
  shows "search GIT_REGULAR_BRANCH_REGEX b False = None"
  unfolding GIT_REGULAR_BRANCH_REGEX_def
  using assms unfolding branch_at_def
  by (intro search_group_rest_None) blast

lemma before_last_paren_None:
  "CHR '')'' \<notin> set (first_line s) \<Longrightarrow> before_last_paren s = None"
  by (induction s) auto

lemma before_last_paren_complete:
  "newline \<notin> set X \<Longrightarrow> CHR '')'' \<notin> set (first_line post) \<Longrightarrow>
     before_last_paren (X @ '')'' @ post) = Some X"
  by (induction X) (auto simp add: before_last_paren_None)

lemma detached_at_longest:
  assumes d: "drop i b = ''* (HEAD detached at '' @ X @ '')'' @ post"
    and nl: "newline \<notin> set X" and last: "CHR '')'' \<notin> set (first_line post)"
    and Y: "detached_at b i Y"
  shows "length Y \<le> length X"
proof -
  have "prefix (''* (HEAD detached at '' @ Y @ '')'') (''* (HEAD detached at '' @ X @ '')'' @ post)"
    and nlY: "newline \<notin> set Y"
    using Y d by (simp_all add: detached_at_def)
  then have "prefix (Y @ '')'') (X @ '')'' @ post)"
    by simp
  then obtain rest where r: "X @ '')'' @ post = Y @ '')'' @ rest"
    by (auto simp add: prefix_def)
  obtain Z where "before_last_paren (X @ '')'' @ post) = Some Z" and "length Y \<le> length Z"
    using before_last_paren_longest[OF r nlY] by blast
  then show ?thesis
    using before_last_paren_complete[OF nl last] by simp
qed

lemma not_detached_at:
  assumes "\<not> str_in ''* (HEAD detached at '' b"
  shows "\<not> detached_at b j Y"
proof
  assume "detached_at b j Y"
  then obtain rest where "drop j b = ''* (HEAD detached at '' @ rest"
    by (auto simp add: detached_at_def prefix_def)
  then have "b = take j b @ ''* (HEAD detached at '' @ rest"
    by (metis append_take_drop_id)
  then have "str_in ''* (HEAD detached at '' b"
    unfolding str_in_iff by blast
  then show False using assms by simp
qed

lemma not_branch_at:
  assumes "\<not> str_in ''* '' b"
  shows "\<not> branch_at b j"
proof
  assume "branch_at b j"
  then obtain rest where "drop j b = ''* '' @ rest"
    by (auto simp add: branch_at_def prefix_def)
  then have "b = take j b @ ''* '' @ rest"
    by (metis append_take_drop_id)
  then have "str_in ''* '' b"
    unfolding str_in_iff by blast
  then show False using assms by simp
qed


text \<open>
  C3. The head is classified in this order. Where the branch listing has its leftmost
  \<^verbatim>\<open>* (HEAD detached at X)\<close>, with the longest \<open>X\<close> that its line allows, the head is \<^verbatim>\<open>(T) X\<close>
  when \<open>X\<close> occurs in the tag listing and \<^verbatim>\<open>(D) X\<close> when it does not. Otherwise, where the
  listing has its leftmost marker \<^verbatim>\<open>* \<close>, the head is \<^verbatim>\<open>(B) \<close> and the rest of the marked
  line. Otherwise the head is \<^verbatim>\<open>(B) master\<close>.
\<close>

theorem head_info_precedence:
  assumes b: "git_branch g = Inr b"
  shows "(git_tag g = Inr tags \<and> detached_at b i X
            \<and> (\<forall>j Y. detached_at b j Y \<longrightarrow> i < j \<or> (i = j \<and> length Y \<le> length X))
          \<longrightarrow> head_info g =
                Inr ((if \<exists>pre post. tags = pre @ X @ post then ''(T) '' else ''(D) '') @ X))
       \<and> ((\<forall>j Y. \<not> detached_at b j Y) \<and> branch_at b i \<and> (\<forall>j<i. \<not> branch_at b j)
          \<longrightarrow> head_info g = Inr (''(B) '' @ takeWhile (\<lambda>c. c \<noteq> newline) (drop (i + 2) b)))
       \<and> ((\<forall>j Y. \<not> detached_at b j Y) \<and> (\<forall>j. \<not> branch_at b j)
          \<longrightarrow> head_info g = Inr ''(B) master'')"
  using b search_detached_Some[of b i X] search_detached_None[of b]
    search_branch_Some[of b i] search_branch_None[of b]
  by (auto simp add: head_info_def is_tag_def str_in_iff)

text \<open>
  A head detached at \<^verbatim>\<open>v1.2.3\<close> with and without that tag, the branch \<^verbatim>\<open>main\<close> marked in the
  second line, and the empty listing of a fresh repository.
\<close>

theorem head_info_precedence_witness:
  "detached_at detached_listing 0 ''v1.2.3''
   \<and> head_info (git_listing detached_listing (''v1.2.3'' @ [newline])) = Inr ''(T) v1.2.3''
   \<and> head_info (git_listing detached_listing (''v1.0'' @ [newline])) = Inr ''(D) v1.2.3''
   \<and> branch_at branch_listing 6
   \<and> head_info (git_listing branch_listing []) = Inr ''(B) main''
   \<and> head_info (git_listing [] []) = Inr ''(B) master''"
proof -
  have at: "detached_at detached_listing 0 ''v1.2.3''"
    by code_simp
  have d: "drop 0 detached_listing
      = ''* (HEAD detached at '' @ ''v1.2.3'' @ '')'' @ ([newline] @ ''  main'' @ [newline])"
    by (simp add: detached_listing_def)
  have first: "\<forall>j Y. detached_at detached_listing j Y
      \<longrightarrow> 0 < j \<or> (0 = j \<and> length Y \<le> length ''v1.2.3'')"
  proof (intro allI impI)
    fix j Y assume a: "detached_at detached_listing j Y"
    show "0 < j \<or> (0 = j \<and> length Y \<le> length ''v1.2.3'')"
    proof (cases j)
      case 0
      then have "length Y \<le> length ''v1.2.3''"
        using detached_at_longest[OF d _ _ a[unfolded 0]] by simp
      then show ?thesis using 0 by simp
    next
      case (Suc k)
      then show ?thesis by simp
    qed
  qed
  have t1: "\<exists>pre post. ''v1.2.3'' @ [newline] = pre @ ''v1.2.3'' @ post"
    unfolding str_in_iff[symmetric] by code_simp
  have t2: "\<not> (\<exists>pre post. ''v1.0'' @ [newline] = pre @ ''v1.2.3'' @ post)"
    unfolding str_in_iff[symmetric] by code_simp
  have g: "git_branch (git_listing b t) = Inr b" "git_tag (git_listing b t) = Inr t" for b t
    by (simp_all add: git_listing_def)
  have h1: "head_info (git_listing detached_listing (''v1.2.3'' @ [newline])) = Inr ''(T) v1.2.3''"
    using head_info_precedence[OF g(1), of detached_listing "''v1.2.3'' @ [newline]" "''v1.2.3'' @ [newline]" 0 "''v1.2.3''"]
      g(2) at first t1 by simp
  have h2: "head_info (git_listing detached_listing (''v1.0'' @ [newline])) = Inr ''(D) v1.2.3''"
    using head_info_precedence[OF g(1), of detached_listing "''v1.0'' @ [newline]" "''v1.0'' @ [newline]" 0 "''v1.2.3''"]
      g(2) at first t2 by simp
  have nd: "\<forall>j Y. \<not> detached_at branch_listing j Y"
  proof -
    have "\<not> str_in ''* (HEAD detached at '' branch_listing" by code_simp
    then show ?thesis using not_detached_at by blast
  qed
  have bat: "branch_at branch_listing 6"
    by code_simp
  have "\<forall>j\<in>{0..<6}. \<not> branch_at branch_listing j"
    by code_simp
  then have bfirst: "\<forall>j<6. \<not> branch_at branch_listing j"
    by auto
  have bname: "takeWhile (\<lambda>c. c \<noteq> newline) (drop (6 + 2) branch_listing) = ''main''"
    by code_simp
  have h3: "head_info (git_listing branch_listing []) = Inr ''(B) main''"
    using head_info_precedence[OF g(1), of branch_listing "[]" "[]" 6] nd bat bfirst bname by simp
  have nd0: "\<forall>j Y. \<not> detached_at [] j Y"
    by (simp add: detached_at_def)
  have nb0: "\<forall>j. \<not> branch_at [] j"
    by (simp add: branch_at_def)
  have h4: "head_info (git_listing [] []) = Inr ''(B) master''"
    using head_info_precedence[OF g(1), of "[]" "[]" "[]"] nd0 nb0 by simp
  show ?thesis
    using at h1 h2 bat h3 h4 by simp
qed

section \<open>The directory fragment\<close>

lemma replace_prefix:
  "old \<noteq> [] \<Longrightarrow> replace old new (old @ rest) = new @ replace old new rest"
  by (subst replace.simps) simp

lemma replace_absent:
  "old \<noteq> [] \<Longrightarrow> \<not> str_in old s \<Longrightarrow> replace old new s = s"
proof (induction s)
  case Nil
  then show ?case by (subst replace.simps) simp
next
  case (Cons c cs)
  then have "\<not> prefix old (c # cs)" and "replace old new cs = cs"
    by auto
  then show ?case
    using Cons.prems(1) by (subst replace.simps) simp
qed


lemma prefix_within:
  assumes "prefix x (v @ t)" and "length x \<le> length v"
  shows "prefix x v"
  using assms by (auto simp add: prefix_append)

text \<open>
  The leftmost occurrence of \<open>old\<close> is replaced wherever it stands, and the text after it
  is treated in the same way: \<open>old\<close> starts at no position of \<open>pre\<close>, also not to run into
  the occurrence that follows \<open>pre\<close>.
\<close>

lemma replace_first_occurrence:
  "old \<noteq> [] \<Longrightarrow> \<not> str_in old (pre @ butlast old) \<Longrightarrow>
   replace old new (pre @ old @ rest) = pre @ new @ replace old new rest"
proof (induction pre)
  case Nil
  then show ?case
    by (simp add: replace_prefix)
next
  case (Cons c pre)
  let ?v = "(c # pre) @ butlast old"
  have "butlast old @ last old # rest = old @ rest"
    using Cons.prems(1) by (cases old rule: rev_cases) simp_all
  then have whole: "(c # pre) @ old @ rest = ?v @ last old # rest"
    by simp
  have "length old \<le> length ?v"
    by simp
  then have "prefix old ?v" if "prefix old ((c # pre) @ old @ rest)"
    using that prefix_within[of old ?v "last old # rest"] unfolding whole by blast
  moreover have "\<not> prefix old ?v" and later: "\<not> str_in old (pre @ butlast old)"
    using Cons.prems(2) by simp_all
  ultimately have "\<not> prefix old ((c # pre) @ old @ rest)"
    by blast
  then have "replace old new ((c # pre) @ old @ rest) = c # replace old new (pre @ old @ rest)"
    using Cons.prems(1) by (subst replace.simps) simp
  then show ?case
    using Cons.IH[OF Cons.prems(1) later] by simp
qed

text \<open>
  C7 (amended). The directory fragment replaces every occurrence of the home directory
  in the path by \<^verbatim>\<open>~\<close>, from the left and without overlap: a path in which the home
  directory does not occur is unchanged, and in any other path the leftmost occurrence,
  after whatever text \<open>pre\<close> it stands, becomes \<^verbatim>\<open>~\<close> and the text after it is treated in the
  same way; so a home prefix becomes \<^verbatim>\<open>~\<close>. When the result is longer than \<open>max_len\<close>, for a
  \<open>max_len\<close> above 3, it is cut to exactly \<open>max_len\<close> characters: three dots and the last
  \<open>max_len - 3\<close> characters of the result.
\<close>

theorem get_shortened_pwd_truncates:
  assumes "3 < max_len"
  shows "get_shortened_pwd HOME pwd max_len =
           (if int (length (replace HOME ''~'' pwd)) \<le> max_len then replace HOME ''~'' pwd
            else ''...'' @ drop (length (replace HOME ''~'' pwd) - nat (max_len - 3))
                            (replace HOME ''~'' pwd))
       \<and> (max_len < int (length (replace HOME ''~'' pwd))
            \<longrightarrow> int (length (get_shortened_pwd HOME pwd max_len)) = max_len)
       \<and> (HOME \<noteq> [] \<longrightarrow> replace HOME ''~'' (HOME @ rest) = ''~'' @ replace HOME ''~'' rest)
       \<and> (HOME \<noteq> [] \<and> \<not> str_in HOME (pre @ butlast HOME)
            \<longrightarrow> replace HOME ''~'' (pre @ HOME @ rest) = pre @ ''~'' @ replace HOME ''~'' rest)
       \<and> (HOME \<noteq> [] \<and> \<not> str_in HOME rest \<longrightarrow> replace HOME ''~'' rest = rest)
       \<and> content (PWDFragment HOME pwd c max_len paren_format) =
            ''('' @ get_shortened_pwd HOME pwd max_len @ '')''"
proof -
  let ?p = "replace HOME ''~'' pwd"
  have cut: "slice_from (- (max_len - 3)) ?p = drop (length ?p - nat (max_len - 3)) ?p"
    if "max_len < int (length ?p)"
  proof -
    have "nat (max (int (length ?p) + - (max_len - 3)) 0) = length ?p - nat (max_len - 3)"
      using assms that by linarith
    then show ?thesis
      using assms by (simp add: slice_from_def)
  qed
  have a: "get_shortened_pwd HOME pwd max_len =
           (if int (length ?p) \<le> max_len then ?p
            else ''...'' @ drop (length ?p - nat (max_len - 3)) ?p)"
    using cut by (auto simp add: get_shortened_pwd_def Let_def)
  have b: "int (length (get_shortened_pwd HOME pwd max_len)) = max_len"
    if "max_len < int (length ?p)"
    using a that assms by auto
  have f: "content (PWDFragment HOME pwd c max_len paren_format) =
            ''('' @ get_shortened_pwd HOME pwd max_len @ '')''"
    by (simp add: PWDFragment_def paren_format_def format1_def PromptPart_init_def)
  show ?thesis
    using a b f replace_prefix[of HOME "''~''" rest] replace_absent[of HOME rest "''~''"]
      replace_first_occurrence[of HOME pre "''~''" rest]
    by blast
qed


text \<open>
  A path of 76 characters under the home directory becomes 70 characters long and is cut
  to 60: three dots and the last 57 characters of the path. A home directory that stands
  after other text is replaced as well: \<^verbatim>\<open>/mnt/home/u/x\<close> becomes \<^verbatim>\<open>/mnt~/x\<close>.
\<close>

theorem get_shortened_pwd_truncates_witness:
  "(3::int) < 60
   \<and> long_pwd = ''/home/u'' @ ''/projects/alpha/beta/gamma/delta/epsilon/zeta/eta/theta/iota/kappa/la''
   \<and> replace ''/home/u'' ''~'' long_pwd
        = ''~/projects/alpha/beta/gamma/delta/epsilon/zeta/eta/theta/iota/kappa/la''
   \<and> length (replace ''/home/u'' ''~'' long_pwd) = 70
   \<and> get_shortened_pwd ''/home/u'' long_pwd 60 = ''...'' @ drop (76 - 57) long_pwd
   \<and> length (get_shortened_pwd ''/home/u'' long_pwd 60) = 60
   \<and> content (PWDFragment ''/home/u'' long_pwd teal 60 paren_format)
        = ''(...pha/beta/gamma/delta/epsilon/zeta/eta/theta/iota/kappa/la)''
   \<and> \<not> str_in ''/home/u'' (''/mnt'' @ butlast ''/home/u'')
   \<and> \<not> str_in ''/home/u'' ''/x''
   \<and> replace ''/home/u'' ''~'' ''/x'' = ''/x''
   \<and> replace ''/home/u'' ''~'' ''/home/u/x'' = ''~/x''
   \<and> replace ''/home/u'' ''~'' ''/mnt/home/u/x'' = ''/mnt~/x''"
proof -
  have m: "(3::int) < 60" by simp
  have l: "long_pwd = ''/home/u'' @ ''/projects/alpha/beta/gamma/delta/epsilon/zeta/eta/theta/iota/kappa/la''"
    by (simp add: long_pwd_def)
  have r: "replace ''/home/u'' ''~'' long_pwd
        = ''~/projects/alpha/beta/gamma/delta/epsilon/zeta/eta/theta/iota/kappa/la''"
    by code_simp
  have n: "length (replace ''/home/u'' ''~'' long_pwd) = 70"
    by code_simp
  have g: "get_shortened_pwd ''/home/u'' long_pwd 60 = ''...'' @ drop (76 - 57) long_pwd"
    by code_simp
  have k: "''('' @ get_shortened_pwd ''/home/u'' long_pwd 60 @ '')''
      = ''(...pha/beta/gamma/delta/epsilon/zeta/eta/theta/iota/kappa/la)''"
    by code_simp
  have s: "\<not> str_in ''/home/u'' (''/mnt'' @ butlast ''/home/u'')" "\<not> str_in ''/home/u'' ''/x''"
    by code_simp+
  have "length (get_shortened_pwd ''/home/u'' long_pwd 60) = 60
     \<and> content (PWDFragment ''/home/u'' long_pwd teal 60 paren_format)
        = ''(...pha/beta/gamma/delta/epsilon/zeta/eta/theta/iota/kappa/la)''
     \<and> replace ''/home/u'' ''~'' ''/x'' = ''/x''
     \<and> replace ''/home/u'' ''~'' ''/home/u/x'' = ''~/x''
     \<and> replace ''/home/u'' ''~'' ''/mnt/home/u/x'' = ''/mnt~/x''"
    using get_shortened_pwd_truncates[OF m, of "''/home/u''" long_pwd "''/x''" "''/mnt''" teal]
      n k s by simp
  with m l r n g s show ?thesis by blast
qed


text \<open>
  C7 as stated fails: the home directory is replaced wherever it occurs, not only as the
  prefix of the path.
\<close>

theorem get_shortened_pwd_prefix_counterexample:
  "prefix ''/home/u'' ''/home/u/backup/home/u''
   \<and> get_shortened_pwd ''/home/u'' ''/home/u/backup/home/u'' 60 = ''~/backup~''
   \<and> get_shortened_pwd ''/home/u'' ''/home/u/backup/home/u'' 60
       \<noteq> ''~'' @ drop (length ''/home/u'') ''/home/u/backup/home/u''"
  by code_simp

text \<open>
  With a \<open>max_len\<close> of 3 the slice \<^verbatim>\<open>_pwd[-0:]\<close> is the whole path, so nothing is cut.
\<close>

lemma get_shortened_pwd_max_len_3:
  "get_shortened_pwd ''/home/u'' ''/tmp/abc'' 3 = ''.../tmp/abc''"
  by code_simp

section \<open>The two renderers compared\<close>

subsection \<open>Replacing the uncolored center by the colored one\<close>

lemma str_in_set: "str_in old s \<Longrightarrow> set old \<subseteq> set s"
  unfolding str_in_iff by auto

lemma replace_Nil: "old \<noteq> [] \<Longrightarrow> replace old new [] = []"
  by (subst replace.simps) simp

lemma replace_self: "old \<noteq> [] \<Longrightarrow> replace old new old = new"
  using replace_prefix[of old new "[]"] by (simp add: replace_Nil)

lemma replace_centered:
  assumes "old \<noteq> []" and "hd old \<noteq> ch"
  shows "replace old new (replicate n ch @ old @ replicate m ch)
           = replicate n ch @ new @ replicate m ch"
proof (induction n)
  case 0
  have "\<not> str_in old (replicate m ch)"
  proof
    assume "str_in old (replicate m ch)"
    then have "set old \<subseteq> set (replicate m ch)" by (rule str_in_set)
    moreover have "hd old \<in> set old" using assms(1) by simp
    ultimately show False using assms(2) by auto
  qed
  then have "replace old new (replicate m ch) = replicate m ch"
    using assms(1) by (rule replace_absent[rotated])
  then show ?case
    using replace_prefix[OF assms(1), of new "replicate m ch"] by simp
next
  case (Suc n)
  have "\<not> prefix old (ch # replicate n ch @ old @ replicate m ch)"
    using assms by (cases old) auto
  then show ?case
    using Suc assms(1) by (subst replace.simps) simp
qed

lemma set_replace:
  "old \<noteq> [] \<Longrightarrow> set (replace old new s) \<subseteq> set s \<union> set new"
proof (induction old new s rule: replace.induct)
  case (1 old new s)
  show ?case
  proof (cases "s = []")
    case True
    then show ?thesis using 1(3) by (simp add: replace_Nil)
  next
    case False
    show ?thesis
    proof (cases "prefix old s")
      case True
      have "set (replace old new (drop (length old) s)) \<subseteq> set (drop (length old) s) \<union> set new"
        using 1(1)[OF 1(3) False True] 1(3) by simp
      moreover have "set (drop (length old) s) \<subseteq> set s"
        by (rule set_drop_subset)
      moreover have "replace old new s = new @ replace old new (drop (length old) s)"
        using 1(3) False True by (subst replace.simps) simp
      ultimately show ?thesis by auto
    next
      case np: False
      have "set (replace old new (tl s)) \<subseteq> set (tl s) \<union> set new"
        using 1(2)[OF 1(3) False np] 1(3) by simp
      moreover have "set (tl s) \<subseteq> set s"
        using False by (cases s) auto
      moreover have "replace old new s = hd s # replace old new (tl s)"
        using 1(3) False np by (subst replace.simps) simp
      moreover have "hd s \<in> set s" using False by simp
      ultimately show ?thesis by auto
    qed
  qed
qed

lemma quote_no_backslash:
  assumes "backslash \<notin> set cmd"
  shows "backslash \<notin> set (quote cmd)"
proof -
  have "set (replace [squote] [squote, dquote, squote, dquote, squote] cmd)
          \<subseteq> set cmd \<union> set [squote, dquote, squote, dquote, squote]"
    by (rule set_replace) simp
  then have "backslash \<notin> set (replace [squote] [squote, dquote, squote, dquote, squote] cmd)"
    using assms by auto
  then show ?thesis
    using assms by (simp add: quote_def)
qed

lemma replace_backslash_quote:
  assumes "backslash \<notin> set cmd"
  shows "replace [backslash] new (quote cmd) = quote cmd"
proof (rule replace_absent)
  show "[backslash] \<noteq> []" by simp
  show "\<not> str_in [backslash] (quote cmd)"
    using quote_no_backslash[OF assms] str_in_set[of "[backslash]" "quote cmd"] by auto
qed

lemma last_command_same:
  assumes "backslash \<notin> set (case cmd of None \<Rightarrow> [] | Some v \<Rightarrow> v)"
  shows "str_part (LastCommandFragment_cli (case cmd of None \<Rightarrow> [] | Some v \<Rightarrow> v) c f)
           = str_part (LastCommandFragment cmd c f)
       \<and> content (LastCommandFragment_cli (case cmd of None \<Rightarrow> [] | Some v \<Rightarrow> v) c f)
           = content (LastCommandFragment cmd c f)
       \<and> len_part (LastCommandFragment_cli (case cmd of None \<Rightarrow> [] | Some v \<Rightarrow> v) c f)
           = len_part (LastCommandFragment cmd c f)"
proof (cases cmd)
  case None
  then show ?thesis
    by (simp add: LastCommandFragment_def LastCommandFragment_cli_def str_part_def len_part_def
        PromptPart_init_def)
next
  case (Some v)
  then have "backslash \<notin> set v" using assms by simp
  then show ?thesis
    using Some
    by (simp add: LastCommandFragment_def LastCommandFragment_cli_def str_part_def len_part_def
        PromptPart_init_def replace_backslash_quote)
qed


subsection \<open>The two rules\<close>

lemma uncolorized_str_disable_zero_width:
  "uncolorized_str (disable_zero_width c) = uncolorized_str c"
  by (simp add: uncolorized_str_def disable_zero_width_def filter_map o_def)

lemma str_mul_single: "str_mul [ch] n = replicate (nat n) ch"
  by (induction "nat n" arbitrary: n) (auto simp add: str_mul_def replicate_append_same)

lemma embed_cli_agrees:
  assumes plain: "uncolorized_str c \<noteq> []" "hd (uncolorized_str c) \<noteq> ch"
    and declared: "length (uncolorized_str c) = len_container c"
    and budget: "0 \<le> w - int (len_container l) - int (len_container r)"
    and fill: "fill = w - int (len_container l) - int (len_container r) - int (len_container c)"
    and even_fill: "fill \<le> 0 \<or> even fill"
  shows "fst (embed_in_horizontal_rule_cli w l c r [ch])
           = Inr (fst (embed_in_horizontal_rule w l c r [ch]))"
proof -
  let ?p = "uncolorized_str c"
  let ?k = "len_container c"
  let ?cols = "w - int (len_container l) - int (len_container r)"
  let ?col = "str_container (disable_zero_width c)"
  have cols: "?cols = fill + int ?k"
    using fill by simp
  show ?thesis
  proof (cases "fill \<le> 0")
    case True
    then have "max (length ?p) (nat ?cols) = length ?p"
      using cols declared by simp
    then have "format_center ?p [ch] ?cols = Inr ?p"
      using budget by (simp add: format_center_def Let_def)
    then have "fst (embed_in_horizontal_rule_cli w l c r [ch]) =
        Inr (str_container (disable_zero_width l) @ ?col @ str_container (disable_zero_width r))"
      using plain(1)
      by (simp add: embed_in_horizontal_rule_cli_def Let_def uncolorized_str_disable_zero_width
          len_container_disable_zero_width replace_self)
    moreover have "fst (embed_in_horizontal_rule w l c r [ch]) =
        str_container (disable_zero_width l) @ ?col @ str_container (disable_zero_width r)"
      using embed_in_horizontal_rule_unpadded[of w l r c "[ch]"] True fill by simp
    ultimately show ?thesis by simp
  next
    case False
    then have pos: "0 < fill" and ev: "even fill"
      using even_fill by auto
    let ?h = "nat (fill div 2)"
    have total: "max (length ?p) (nat ?cols) = length ?p + 2 * ?h"
      using cols declared pos ev by (auto simp add: max_def)
    have "format_center ?p [ch] ?cols = Inr (replicate ?h ch @ ?p @ replicate ?h ch)"
      using budget total by (simp add: format_center_def Let_def)
    then have "fst (embed_in_horizontal_rule_cli w l c r [ch]) =
        Inr (str_container (disable_zero_width l) @ replicate ?h ch @ ?col @ replicate ?h ch
             @ str_container (disable_zero_width r))"
      using replace_centered[OF plain, of ?col ?h ?h]
      by (simp add: embed_in_horizontal_rule_cli_def Let_def uncolorized_str_disable_zero_width
          len_container_disable_zero_width)
    moreover have "fill div 2 + fill mod 2 = fill div 2"
      using ev by presburger
    then have "fst (embed_in_horizontal_rule w l c r [ch]) =
        str_container (disable_zero_width l) @ replicate ?h ch @ ?col @ replicate ?h ch
             @ str_container (disable_zero_width r)"
      using embed_in_horizontal_rule_padded[of w l r c "[ch]"] pos fill
      by (simp add: str_mul_single)
    ultimately show ?thesis by simp
  qed
qed

lemma PWD_plain:
  "uncolorized_str \<lparr>separator = sep, parts = [PWDFragment HOME pwd c m paren_format]\<rparr>
     = ''('' @ get_shortened_pwd HOME pwd m @ '')''"
  by (simp add: uncolorized_str_def PWDFragment_def paren_format_def format1_def
      PromptPart_init_def)

lemma PWD_len:
  "len_part (PWDFragment HOME pwd c m paren_format)
     = length (''('' @ get_shortened_pwd HOME pwd m @ '')'')"
  by (simp add: len_part_def PWDFragment_def paren_format_def format1_def PromptPart_init_def)

lemma output_differs: "OUTPUT_cli t p r @ [newline] \<noteq> OUTPUT t p r"
  by (simp add: OUTPUT_cli_def OUTPUT_def)

lemma embed_cli_left:
  assumes "len_container l = len_container l'"
    and "str_container (disable_zero_width l) = str_container (disable_zero_width l')"
  shows "fst (embed_in_horizontal_rule_cli w l c r rc)
           = fst (embed_in_horizontal_rule_cli w l' c r rc)"
  using assms
  by (simp add: embed_in_horizontal_rule_cli_def Let_def len_container_disable_zero_width
      split: sum.splits)


text \<open>
  C5 (amended). The command line program and the server compute the same topline, prompt
  and rprompt for a context in which the working directory is set, no virtual
  environment is set, the last command has no backslash, both read the same home
  directory, the same exit status and the same terminal width, the git fragment is built,
  the terminal is at least as wide as the left and right containers and the fill is even
  or not positive. The shell text that they put around the three strings differs.
\<close>

theorem renderers_agree:
  assumes pwd: "env ''PWD'' = Some pwd"
    and venv: "env ''VIRTUAL_ENV'' = None" "env ''CONDA_DEFAULT_ENV'' = None"
      "env ''NODE_VIRTUAL_ENV'' = None \<or> env ''NODE_VIRTUAL_ENV'' = Some []"
    and cmd: "backslash \<notin> set (case env ''LAST_CMD'' of None \<Rightarrow> [] | Some v \<Rightarrow> v)"
    and home: "HOME = (case env ''HOME'' of None \<Rightarrow> ''/home/'' @ user | Some h \<Rightarrow> h)"
    and status: "int_of_env env ''LAST_EXIT_CODE'' 0 = Inr status"
    and width: "tput_cols = Inr cols" "py_int (strip cols) = Inr w"
      "int_of_env env ''COLS'' 80 = Inr w"
    and git: "GitInfoFragment git git_format blue indicators_default = Inr git_part"
    and budget: "budget = w - int (len_part git_part)
        - int (len_part (LastCommandFragment (env ''LAST_CMD'') green last_cmd_format))
        - int (len_part (TimeFragment now gray))" "0 \<le> budget"
    and fill: "fill = budget - int (len_part (PWDFragment HOME pwd teal 60 paren_format))"
      "fill \<le> 0 \<or> even fill"
  shows "prompt_dir_cli env user tput_cols git now = prompt_dir env HOME git now
       \<and> (\<exists>topline prompt rprompt.
            prompt_dir env HOME git now = Inr (topline, prompt, rprompt)
            \<and> main env user tput_cols git now = Inr (OUTPUT_cli topline prompt rprompt @ [newline])
            \<and> handle_client env HOME git now = Inr (OUTPUT topline prompt rprompt))
       \<and> main env user tput_cols git now \<noteq> handle_client env HOME git now"
proof -
  let ?cmd = "case env ''LAST_CMD'' of None \<Rightarrow> [] | Some v \<Rightarrow> v"
  let ?l = "\<lparr>separator = [], parts = [git_part, LastCommandFragment (env ''LAST_CMD'') green last_cmd_format]\<rparr>"
  let ?lc = "\<lparr>separator = [], parts = [git_part, LastCommandFragment_cli ?cmd green last_cmd_format]\<rparr>"
  let ?c = "\<lparr>separator = RULE_CHAR, parts = [PWDFragment HOME pwd teal 60 paren_format]\<rparr>"
  let ?r = "\<lparr>separator = RULE_CHAR, parts = [TimeFragment now gray]\<rparr>"
  note same = last_command_same[OF cmd, of green last_cmd_format]
  have len_l: "len_container ?lc = len_container ?l"
    using same by (simp add: len_container_def)
  have str_l: "str_container (disable_zero_width ?lc) = str_container (disable_zero_width ?l)"
    using same
    by (simp add: str_container_def disable_zero_width_def str_part_def
        LastCommandFragment_def LastCommandFragment_cli_def PromptPart_init_def)
  have cli_left: "fst (embed_in_horizontal_rule_cli w ?lc ?c ?r RULE_CHAR)
      = fst (embed_in_horizontal_rule_cli w ?l ?c ?r RULE_CHAR)"
    using len_l str_l by (rule embed_cli_left)
  have b: "0 \<le> w - int (len_container ?l) - int (len_container ?r)"
    using budget by (simp add: len_container_def)
  have f: "fill = w - int (len_container ?l) - int (len_container ?r) - int (len_container ?c)"
    using budget fill by (simp add: len_container_def)
  have d: "length (uncolorized_str ?c) = len_container ?c"
    using PWD_plain[of RULE_CHAR HOME pwd teal 60] PWD_len[of HOME pwd teal 60]
    by (simp add: len_container_def)
  have top: "fst (embed_in_horizontal_rule_cli w ?l ?c ?r RULE_CHAR)
      = Inr (fst (embed_in_horizontal_rule w ?l ?c ?r RULE_CHAR))"
    unfolding RULE_CHAR_def
    by (rule embed_cli_agrees[OF _ _ d[unfolded RULE_CHAR_def] b[unfolded RULE_CHAR_def]
          f[unfolded RULE_CHAR_def] fill(2)])
      (simp_all add: PWD_plain)
  have arrow: "part_true (ColoredTextFragment arrow red)"
    by (simp add: part_true_def len_part_def ColoredTextFragment_def PromptPart_init_def arrow_def)
  have p_cli: "filter part_true [VirtualEnvFragment_cli env teal paren_format,
          CondaEnvFragment_cli env green paren_format, ColoredTextFragment arrow red]
        = [ColoredTextFragment arrow red]"
    using venv arrow
    by (simp add: VirtualEnvFragment_cli_def CondaEnvFragment_cli_def EnvFragment_cli_def
        part_true_def len_part_def PromptPart_init_def)
  have p_srv: "filter part_true
         [VirtualEnvFragment (case env ''VIRTUAL_ENV'' of None \<Rightarrow> [] | Some v \<Rightarrow> v) teal snake_format,
          VirtualEnvFragment (case env ''NODE_VIRTUAL_ENV'' of None \<Rightarrow> [] | Some v \<Rightarrow> v) green
            hexagon_format,
          ColoredTextFragment arrow red]
        = [ColoredTextFragment arrow red]"
    using venv arrow
    by (auto simp add: VirtualEnvFragment_def part_true_def len_part_def PromptPart_init_def)
  have cli: "prompt_dir_cli env user tput_cols git now =
      Inr (fst (embed_in_horizontal_rule w ?l ?c ?r RULE_CHAR),
           str_part (ColoredTextFragment arrow red),
           str_part (ReturnStatusFragment status red return_format))"
    unfolding prompt_dir_cli_def Let_def p_cli
    using pwd status width git home cli_left top by simp
  have srv: "prompt_dir env HOME git now =
      Inr (fst (embed_in_horizontal_rule w ?l ?c ?r RULE_CHAR),
           str_part (ColoredTextFragment arrow red),
           str_part (ReturnStatusFragment status red return_format))"
    unfolding prompt_dir_def Let_def p_srv
    using pwd status width git by simp
  show ?thesis
    using cli srv by (simp add: main_def handle_client_def output_differs)
qed


text \<open>
  A shell in \<^verbatim>\<open>/home/u/src\<close> after \<^verbatim>\<open>make test\<close>, on 81 columns: the budget of the middle is
  45 and the fill is 38.
\<close>

theorem renderers_agree_witness:
  "prompt_dir_cli plain_environment ''u'' (Inr (''81'' @ [newline])) git_example noon
     = prompt_dir plain_environment ''/home/u'' git_example noon
   \<and> main plain_environment ''u'' (Inr (''81'' @ [newline])) git_example noon
     \<noteq> handle_client plain_environment ''/home/u'' git_example noon"
proof -
  let ?gp = "PromptPart_init\<lparr>content := ''[(B) main|!+?|]'', color := blue\<rparr>"
  have pwd: "plain_environment ''PWD'' = Some ''/home/u/src''"
    and v1: "plain_environment ''VIRTUAL_ENV'' = None"
    and v2: "plain_environment ''CONDA_DEFAULT_ENV'' = None"
    and v3: "plain_environment ''NODE_VIRTUAL_ENV'' = None
           \<or> plain_environment ''NODE_VIRTUAL_ENV'' = Some []"
    and cmd: "backslash \<notin> set (case plain_environment ''LAST_CMD'' of None \<Rightarrow> [] | Some v \<Rightarrow> v)"
    and home: "''/home/u'' = (case plain_environment ''HOME'' of None \<Rightarrow> ''/home/'' @ ''u''
           | Some h \<Rightarrow> h)"
    by (simp_all add: plain_environment_def)
  have status: "int_of_env plain_environment ''LAST_EXIT_CODE'' 0 = Inr 1"
    and w1: "py_int (strip (''81'' @ [newline])) = Inr 81"
    and w2: "int_of_env plain_environment ''COLS'' 80 = Inr 81"
    by code_simp+
  have git: "GitInfoFragment git_example git_format blue indicators_default = Inr ?gp"
    by code_simp
  have budget: "(45::int) = 81 - int (len_part ?gp)
        - int (len_part (LastCommandFragment (plain_environment ''LAST_CMD'') green
            last_cmd_format))
        - int (len_part (TimeFragment noon gray))"
    by code_simp
  have fill: "(38::int) = 45 - int (len_part (PWDFragment ''/home/u'' ''/home/u/src'' teal 60
        paren_format))"
    by code_simp
  show ?thesis
    using renderers_agree[OF pwd v1 v2 v3 cmd home status refl w1 w2 git budget _ fill]
    by simp
qed


text \<open>
  C5 as stated fails. With a virtual environment on 81 columns the fill is 49, which the
  two programs split differently, and the prompt shows \<^verbatim>\<open>(venv)\<close> and a space in one program
  and the snake in brackets in the other.
\<close>

theorem renderers_differ_counterexample:
  "(case (prompt_dir_cli context_environment ''u'' (Inr (''81'' @ [newline])) git_example noon,
          prompt_dir context_environment ''/home/u'' git_example noon) of
      (Inr (topline_cli, prompt_cli, rprompt_cli), Inr (topline, prompt, rprompt)) \<Rightarrow>
        topline_cli \<noteq> topline \<and> prompt_cli \<noteq> prompt \<and> rprompt_cli = rprompt
        \<and> prompt_cli = colorize teal ''(venv)'' True @ '' '' @ colorize red arrow True
        \<and> prompt = colorize teal (format1 snake_format ''venv'') True @ colorize red arrow True
    | _ \<Rightarrow> False)"
  by code_simp


end
